theory Spec2Isabelle
  imports Complex_Main "HOL-Library.AList" "HOL-Library.Sublist"
begin

section \<open>Python values, exceptions and dictionaries\<close>

text \<open>
  Values found in Salesforce records and in the statistics rows. A \<open>datetime\<close> is a
  point on the time line, in seconds.
\<close>

datatype pyval = PNone | PStr string | PNum real | PBool bool | PDatetime real

text \<open>
  A Python exception: its class, its message (\<open>str(e)\<close>) and its \<open>__context__\<close>, the
  exception that was being handled when it was raised (\<open>None\<close> for a \<open>raise\<close> outside of
  every \<open>except\<close> block).
\<close>

datatype exn = Exn (exn_class: string) (message: string) (exn_context: "exn option")

text \<open>
  A \<open>dict\<close> keeps its keys in insertion order; assigning to a key that is present
  replaces the value where the key stands. This is \<open>AList.update\<close>.
\<close>

type_synonym ('k, 'v) dict = "('k \<times> 'v) list"

definition dict_get :: "('k, 'v) dict \<Rightarrow> 'k \<Rightarrow> 'v \<Rightarrow> 'v" where
  "dict_get d k dflt = (case map_of d k of Some v \<Rightarrow> v | None \<Rightarrow> dflt)"

text \<open>A dict comprehension \<open>{k: v for ...}\<close> assigns the items one after the other.\<close>

definition dict_of_items :: "('k \<times> 'v) list \<Rightarrow> ('k, 'v) dict" where
  "dict_of_items kvs = foldl (\<lambda>d (k, v). AList.update k v d) [] kvs"

text \<open>\<open>sep.join(xs)\<close>\<close>

fun join :: "string \<Rightarrow> string list \<Rightarrow> string" where
  "join sep [] = []"
| "join sep [x] = x"
| "join sep (x # y # ys) = x @ sep @ join sep (y # ys)"

text \<open>
  \<open>s.replace(old, new)\<close> for a non-empty \<open>old\<close> (both call sites pass a literal):
  every occurrence, found from left to right without overlap.
\<close>

function str_replace :: "string \<Rightarrow> string \<Rightarrow> string \<Rightarrow> string" where
  "str_replace old new [] = []"
| "str_replace old new (c # cs) =
     (if old \<noteq> [] \<and> prefix old (c # cs)
      then new @ str_replace old new (drop (length old) (c # cs))
      else c # str_replace old new cs)"
  by pat_completeness auto
termination
  by (relation "measure (\<lambda>(old, new, s). length s)") (auto simp: neq_Nil_conv)

text \<open>\<open>os.path.join(a, b)\<close> on POSIX.\<close>

definition path_join :: "string \<Rightarrow> string \<Rightarrow> string" where
  "path_join a b =
     (if b \<noteq> [] \<and> hd b = CHR ''/'' then b
      else if a = [] \<or> last a = CHR ''/'' then a @ b
      else a @ ''/'' @ b)"

section \<open>Configuration (config.py)\<close>

definition STANDARD_FIELDS :: "string list" where
  "STANDARD_FIELDS =
    [''Id'', ''Name'', ''OwnerId'', ''CreatedDate'', ''LastModifiedDate'', ''CreatedById'',
     ''DeveloperName'', ''IsActive'', ''SobjectType'',
     ''BillingStreet'', ''BillingCity'', ''BillingPostalCode'', ''BillingCountry'',
     ''ShippingStreet'', ''ShippingCity'', ''ShippingPostalCode'', ''ShippingCountry'',
     ''Phone'', ''Email'', ''Salutation'', ''AccountId'', ''Title'', ''ContractId'', ''OrderId'',
     ''EndDate'', ''EffectiveDate'', ''ListPrice'', ''OrderItemNumber'', ''Product2Id'',
     ''Quantity'', ''ServiceDate'', ''UnitPrice'', ''TotalPrice'', ''Status'', ''StageName'',
     ''ContractName'', ''OpportunityId'', ''OrderNumber'', ''Type'',
     ''Pricebook2Id'', ''RecordTypeId'', ''StartDate'', ''ContractTerm'', ''ExternalId'',
     ''ProductCode'', ''Family'', ''IsStandard'', ''UseStandardPrice'']"

definition OBJECT_NAMES :: "string list" where
  "OBJECT_NAMES =
    [''RecordType'', ''Account'', ''Contact'', ''User'', ''Work_Order__c'', ''Elevator__c'',
     ''Property__c'', ''Property_Unit__c'', ''Elevator_Service_Cost__c'',
     ''Elevator_Document_Check__c'', ''Contract'', ''Opportunity'', ''Product2'',
     ''Pricebook2'', ''PricebookEntry'', ''OpportunityLineItem'', ''Order'', ''OrderItem'',
     ''OrderElevatorRelation__c'', ''Service_Fulfillment__c'', ''Elevator_Property__c'',
     ''OSI_WorkOrder_Item__c'']"

text \<open>
  \<open>LOCAL_FOLDER\<close> and \<open>LOG_FILE_NAME\<close> are read from the process environment when the
  module is loaded (defaults \<open>files\<close> and \<open>Pipeline_Logs.csv\<close>), so they are parameters.
\<close>

record config =
  LOCAL_FOLDER :: string
  LOG_FILE_NAME :: string

definition default_config :: config where
  "default_config = \<lparr>LOCAL_FOLDER = ''files'', LOG_FILE_NAME = ''Pipeline_Logs.csv''\<rparr>"

section \<open>The external collaborators\<close>

text \<open>
  What \<open>simple_salesforce\<close> returns. A query result is a dictionary read with
  \<open>.get\<close>, so each of its keys may be absent. The rows of \<open>FieldDefinition\<close> are read with
  \<open>field['QualifiedApiName']\<close> and \<open>field['Label']\<close>, both selected by the query and both
  strings.
\<close>

type_synonym sfrecord = "(string, pyval) dict"

record query_result =
  qr_records :: "sfrecord list option"
  qr_done :: "bool option"
  qr_nextRecordsUrl :: "string option"

record field_definition =
  QualifiedApiName :: string
  Label :: string

record Salesforce =
  sf_instance :: string
  sf_session_id :: string

text \<open>
  The world outside the process (the Salesforce service, the clock, the random number
  generator) is a state of type \<open>'w\<close>, and every library call that touches it is a
  parameter here. A remote call returns its result or the exception it raised, and the
  world after it. \<open>ExcelWriter_init\<close> is the constructor \<open>pd.ExcelWriter(path)\<close>: it gives
  the name of the class of the writer it made (the class of the engine in use).
\<close>

record 'w env =
  SalesforceLogin :: "'w \<Rightarrow> (exn + string \<times> string) \<times> 'w"
  sf_query_all :: "Salesforce \<Rightarrow> string \<Rightarrow> 'w \<Rightarrow> (exn + field_definition list option) \<times> 'w"
  sf_query :: "Salesforce \<Rightarrow> string \<Rightarrow> 'w \<Rightarrow> (exn + query_result) \<times> 'w"
  sf_query_more :: "Salesforce \<Rightarrow> string option \<Rightarrow> 'w \<Rightarrow> (exn + query_result) \<times> 'w"
  random_uniform :: "'w \<Rightarrow> real \<times> 'w"
  time_sleep :: "real \<Rightarrow> 'w \<Rightarrow> 'w"
  datetime_now :: "'w \<Rightarrow> real"
  datetime_today :: "'w \<Rightarrow> string"
  ensure_folders :: "'w \<Rightarrow> exn option \<times> 'w"
  ExcelWriter_init :: "string \<Rightarrow> 'w \<Rightarrow> (exn + string) \<times> 'w"
  writer_exit :: "string \<Rightarrow> string list \<Rightarrow> 'w \<Rightarrow> exn option \<times> 'w"
  drive_upload :: "'w \<Rightarrow> exn option \<times> 'w"

section \<open>The state of the process\<close>

record Statistics =
  object_name :: string
  start_time :: real
  end_time :: real
  duration :: real
  last_refresh_date :: string

type_synonym dataframe = "(string, pyval) dict list"

text \<open>The lines printed on standard output, with the values they format.\<close>

datatype event =
    LoginSuccessful
  | LoginAttemptFailed nat nat string real
  | ExecutingQuery string
  | QueryAttemptFailed nat nat string real
  | ProcessingObject string
  | StartTime real
  | DataSaved string
  | EndTime real
  | Duration real
  | ErrorProcessing string string
  | Traceback exn
  | StatisticsSaved string
  | PipelineCompleted
  | PipelineFailed string

text \<open>
  \<open>sf\<close> and \<open>statistics\<close> are the attributes of \<open>SalesforceClient\<close>; \<open>sheets\<close> are the
  sheets handed to the \<open>ExcelWriter\<close> by \<open>to_excel\<close>, in the order of the calls; \<open>files\<close>
  are the tables written by \<open>to_csv\<close>, by path.
\<close>

record 'w state =
  world :: 'w
  stdout :: "event list"
  sf :: "Salesforce option"
  statistics :: "Statistics list"
  sheets :: "(string \<times> dataframe) list"
  files :: "string \<rightharpoonup> dataframe"

definition print :: "event \<Rightarrow> 'w state \<Rightarrow> 'w state" where
  "print e s = s\<lparr>stdout := stdout s @ [e]\<rparr>"

section \<open>SalesforceClient\<close>

subsection \<open>login\<close>

text \<open>
  \<open>for i in range(retries)\<close>: one equation for the exhausted range, which falls through to
  the final \<open>raise\<close>, and one for an attempt.
\<close>

fun login_attempts :: "'w env \<Rightarrow> nat \<Rightarrow> nat list \<Rightarrow> 'w state \<Rightarrow> (exn + unit) \<times> 'w state" where
  "login_attempts env retries [] s =
     (Inl (Exn ''Exception'' ''Max retries reached, Salesforce login failed.'' None), s)"
| "login_attempts env retries (i # rest) s =
     (case SalesforceLogin env (world s) of
        (Inr (session_id, instance), w) \<Rightarrow>
          (Inr (), print LoginSuccessful
             (s\<lparr>world := w, sf := Some \<lparr>sf_instance = instance, sf_session_id = session_id\<rparr>\<rparr>))
      | (Inl e, w) \<Rightarrow>
          (case random_uniform env w of
             (jitter, w1) \<Rightarrow>
               let wait_time = 2 ^ i + jitter;
                   s1 = print (LoginAttemptFailed (i + 1) retries (message e) wait_time)
                          (s\<lparr>world := w1\<rparr>);
                   s2 = s1\<lparr>world := time_sleep env wait_time (world s1)\<rparr>
               in login_attempts env retries rest s2))"

definition login :: "'w env \<Rightarrow> 'w state \<Rightarrow> (exn + unit) \<times> 'w state" where
  "login env s = (let retries = 5 in login_attempts env retries [0..<retries] s)"

subsection \<open>get\_field\_labels\<close>

text \<open>\<open>repr\<close> of a name, as it stands in the messages of the interpreter.\<close>

definition quoted :: "string \<Rightarrow> string" where
  "quoted name = [CHR 0x27] @ name @ [CHR 0x27]"

text \<open>What an attribute access on \<open>None\<close> raises (\<open>self.sf\<close> before a login).\<close>

definition attribute_error :: "string \<Rightarrow> exn" where
  "attribute_error attr =
     Exn ''AttributeError''
       (quoted ''NoneType'' @ '' object has no attribute '' @ quoted attr) None"

fun field_label_loop ::
  "field_definition list \<Rightarrow> (string, string) dict \<Rightarrow> (string, string) dict" where
  "field_label_loop [] field_label_map = field_label_map"
| "field_label_loop (field # rest) field_label_map =
     (let qualified_name = QualifiedApiName field in
      if qualified_name \<in> set STANDARD_FIELDS \<or> sublist ''__c'' qualified_name
      then field_label_loop rest (AList.update qualified_name (Label field) field_label_map)
      else field_label_loop rest field_label_map)"

definition get_field_labels ::
  "'w env \<Rightarrow> string \<Rightarrow> 'w state \<Rightarrow> (exn + (string, string) dict) \<times> 'w state" where
  "get_field_labels env obj s =
     (let soql_query =
            ''SELECT QualifiedApiName, Label, ValueTypeId FROM FieldDefinition WHERE EntityDefinition.QualifiedApiName = ''
            @ [CHR 0x27] @ obj @ [CHR 0x27]
      in case sf s of
           None \<Rightarrow> (Inl (attribute_error ''query_all''), s)
         | Some conn \<Rightarrow>
             (case sf_query_all env conn soql_query (world s) of
                (Inl e, w) \<Rightarrow> (Inl e, s\<lparr>world := w\<rparr>)
              | (Inr field_metadata, w) \<Rightarrow>
                  (Inr (field_label_loop (case field_metadata of None \<Rightarrow> [] | Some fs \<Rightarrow> fs) []),
                   s\<lparr>world := w\<rparr>)))"

subsection \<open>fetch\_data\<close>

text \<open>
  The \<open>while not records.get('done')\<close> loop. It runs for as long as the service answers
  without reporting completion, so it is a partial function: \<open>None\<close> is a loop that never
  ends. \<open>not x\<close> is true for an absent \<open>done\<close> and for \<open>False\<close>.
\<close>

definition get_records :: "query_result \<Rightarrow> sfrecord list" where
  "get_records records = (case qr_records records of None \<Rightarrow> [] | Some rs \<Rightarrow> rs)"

partial_function (option) query_more_loop ::
  "'w env \<Rightarrow> Salesforce \<Rightarrow> query_result \<Rightarrow> sfrecord list \<Rightarrow> string option \<Rightarrow> 'w
     \<Rightarrow> ((exn + sfrecord list) \<times> 'w) option" where
  "query_more_loop env conn records all_records next_records_url w =
     (if qr_done records \<noteq> Some True
      then (case sf_query_more env conn next_records_url w of
              (Inl e, w1) \<Rightarrow> Some (Inl e, w1)
            | (Inr records1, w1) \<Rightarrow>
                query_more_loop env conn records1 (all_records @ get_records records1)
                  (qr_nextRecordsUrl records1) w1)
      else Some (Inr all_records, w))"

text \<open>The body of the \<open>try\<close> of one attempt.\<close>

definition fetch_try ::
  "'w env \<Rightarrow> string \<Rightarrow> 'w state \<Rightarrow> ((exn + sfrecord list) \<times> 'w state) option" where
  "fetch_try env soql_query s =
     (case sf s of
        None \<Rightarrow> Some (Inl (attribute_error ''query''), s)
      | Some conn \<Rightarrow>
          (case sf_query env conn soql_query (world s) of
             (Inl e, w) \<Rightarrow> Some (Inl e, s\<lparr>world := w\<rparr>)
           | (Inr records, w) \<Rightarrow>
               map_option (\<lambda>(r, w1). (r, s\<lparr>world := w1\<rparr>))
                 (query_more_loop env conn records (get_records records)
                    (qr_nextRecordsUrl records) w)))"

fun fetch_attempts ::
  "'w env \<Rightarrow> string \<Rightarrow> string \<Rightarrow> nat \<Rightarrow> nat list \<Rightarrow> 'w state
     \<Rightarrow> ((exn + sfrecord list) \<times> 'w state) option" where
  "fetch_attempts env obj soql_query retries [] s =
     Some (Inl (Exn ''Exception'' (''Max retries reached, query failed for '' @ obj) None), s)"
| "fetch_attempts env obj soql_query retries (i # rest) s =
     (case fetch_try env soql_query s of
        None \<Rightarrow> None
      | Some (Inr all_records, s1) \<Rightarrow> Some (Inr all_records, s1)
      | Some (Inl e, s1) \<Rightarrow>
          (case random_uniform env (world s1) of
             (jitter, w1) \<Rightarrow>
               let wait_time = 2 ^ i + jitter;
                   s2 = print (QueryAttemptFailed (i + 1) retries (message e) wait_time)
                          (s1\<lparr>world := w1\<rparr>);
                   s3 = s2\<lparr>world := time_sleep env wait_time (world s2)\<rparr>
               in fetch_attempts env obj soql_query retries rest s3))"

definition fetch_data ::
  "'w env \<Rightarrow> string \<Rightarrow> string list \<Rightarrow> 'w state \<Rightarrow> ((exn + sfrecord list) \<times> 'w state) option" where
  "fetch_data env obj field_names s =
     (let soql_query = ''SELECT '' @ join '', '' field_names @ '' FROM '' @ obj;
          s0 = print (ExecutingQuery soql_query) s;
          retries = 5
      in fetch_attempts env obj soql_query retries [0..<retries] s0)"

section \<open>DataPipeline\<close>

subsection \<open>export\_salesforce\_object\<close>

text \<open>
  The row transform: \<open>fieldname_mapping\<close> inverts the label map, and every record gives
  one row, keyed by label, of the values found under the API names (the empty string
  when absent).
\<close>

definition record_rows :: "(string, string) dict \<Rightarrow> sfrecord list \<Rightarrow> dataframe" where
  "record_rows field_label_map records =
     (let fieldname_mapping = dict_of_items (map (\<lambda>(k, v). (v, k)) field_label_map)
      in map (\<lambda>rec. dict_of_items
                (map (\<lambda>(field_label, field_api). (field_label, dict_get rec field_api (PStr [])))
                   fieldname_mapping))
           records)"

text \<open>
  The block under \<open>if records:\<close>. A write is recorded as the call that hands the table
  to pandas: \<open>to_csv\<close> under its path, \<open>to_excel\<close> under its sheet name.
\<close>

definition save_records ::
  "config \<Rightarrow> string \<Rightarrow> (string, string) dict \<Rightarrow> sfrecord list \<Rightarrow> 'w state \<Rightarrow> 'w state" where
  "save_records cfg obj field_label_map records s =
     (if records \<noteq> []
      then let df = record_rows field_label_map records;
               s1 = (if length records \<ge> 1000000
                     then let file_path = path_join (LOCAL_FOLDER cfg) (obj @ ''.csv'')
                          in s\<lparr>files := (files s)(file_path \<mapsto> df)\<rparr>
                     else let sheet_name = str_replace ''_'' '' '' (str_replace ''__c'' [] obj)
                          in s\<lparr>sheets := sheets s @ [(sheet_name, df)]\<rparr>)
           in print (DataSaved obj) s1
      else s)"

text \<open>The body of the \<open>try\<close>: its result is the exception that left it, if one did.\<close>

definition export_try ::
  "'w env \<Rightarrow> config \<Rightarrow> string \<Rightarrow> real \<Rightarrow> 'w state \<Rightarrow> ((exn + unit) \<times> 'w state) option" where
  "export_try env cfg obj t_start s =
     (case get_field_labels env obj s of
        (Inl e, s1) \<Rightarrow> Some (Inl e, s1)
      | (Inr field_label_map, s1) \<Rightarrow>
          (let field_names = map fst field_label_map
           in case fetch_data env obj field_names s1 of
                None \<Rightarrow> None
              | Some (Inl e, s2) \<Rightarrow> Some (Inl e, s2)
              | Some (Inr records, s2) \<Rightarrow>
                  (let s3 = save_records cfg obj field_label_map records s2;
                       t_end = datetime_now env (world s3);
                       dur = t_end - t_start;
                       s4 = s3\<lparr>statistics := statistics s3 @
                              [\<lparr>object_name = obj, start_time = t_start, end_time = t_end,
                                duration = dur,
                                last_refresh_date = datetime_today env (world s3)\<rparr>]\<rparr>
                   in Some (Inr (), print (Duration dur) (print (EndTime t_end) s4)))))"

definition export_salesforce_object ::
  "'w env \<Rightarrow> config \<Rightarrow> string \<Rightarrow> 'w state \<Rightarrow> 'w state option" where
  "export_salesforce_object env cfg obj s =
     (let t_start = datetime_now env (world s);
          s0 = print (StartTime t_start) (print (ProcessingObject obj) s)
      in case export_try env cfg obj t_start s0 of
           None \<Rightarrow> None
         | Some (Inr u, s1) \<Rightarrow> Some s1
         | Some (Inl e, s1) \<Rightarrow>
             Some (print (Traceback e) (print (ErrorProcessing obj (message e)) s1)))"

subsection \<open>save\_statistics\<close>

definition stat_row :: "Statistics \<Rightarrow> (string, pyval) dict" where
  "stat_row stat =
     [(''Object Name'', PStr (object_name stat)),
      (''Start Time'', PDatetime (start_time stat)),
      (''End Time'', PDatetime (end_time stat)),
      (''Duration (Seconds)'', PNum (duration stat)),
      (''Last Refresh Date'', PStr (last_refresh_date stat))]"

text \<open>
  A table is the list of its rows. The table with no row is the one \<open>pd.DataFrame([])\<close>
  makes; it has no column either, \<open>to_csv\<close> writes it as a single empty line, and
  \<open>read_csv\<close> refuses such a file with \<open>EmptyDataError\<close>. A table with rows is read
  back as it was written.
\<close>

definition read_csv :: "dataframe \<Rightarrow> exn + dataframe" where
  "read_csv stored =
     (if stored = [] then Inl (Exn ''EmptyDataError'' ''No columns to parse from file'' None)
      else Inr stored)"

text \<open>
  \<open>concat\<close> with \<open>ignore_index\<close> puts the rows of the second table after those of the
  first. An exception of \<open>read_csv\<close> leaves \<open>save_statistics\<close> before anything is
  written.
\<close>

definition save_statistics :: "config \<Rightarrow> 'w state \<Rightarrow> (exn + unit) \<times> 'w state" where
  "save_statistics cfg s =
     (let log_file = path_join (LOCAL_FOLDER cfg) (LOG_FILE_NAME cfg);
          stats_data = map stat_row (statistics s)
      in case files s log_file of
           Some stored \<Rightarrow>
             (case read_csv stored of
                Inl e \<Rightarrow> (Inl e, s)
              | Inr existing_df \<Rightarrow>
                  (Inr (), print (StatisticsSaved log_file)
                     (s\<lparr>files := (files s)(log_file \<mapsto> existing_df @ stats_data)\<rparr>)))
         | None \<Rightarrow>
             (Inr (), print (StatisticsSaved log_file)
                (s\<lparr>files := (files s)(log_file \<mapsto> stats_data)\<rparr>)))"

subsection \<open>run\<close>

text \<open>
  \<open>asyncio.gather\<close> makes one task of each coroutine, in the order of \<open>OBJECT_NAMES\<close>.
  \<open>export_salesforce_object\<close> never awaits, so the event loop runs each task from its
  start to its end before it starts the next one.
\<close>

fun gather :: "'w env \<Rightarrow> config \<Rightarrow> string list \<Rightarrow> 'w state \<Rightarrow> 'w state option" where
  "gather env cfg [] s = Some s"
| "gather env cfg (obj # rest) s =
     (case export_salesforce_object env cfg obj s of
        None \<Rightarrow> None
      | Some s1 \<Rightarrow> gather env cfg rest s1)"

definition pipeline_failed :: "exn \<Rightarrow> 'w state \<Rightarrow> 'w state" where
  "pipeline_failed e s = print (Traceback e) (print (PipelineFailed (message e)) s)"

text \<open>
  \<open>async with m as writer\<close> asks the class of \<open>m\<close> for \<open>__aenter__\<close> and \<open>__aexit__\<close> and
  raises \<open>TypeError\<close> when the class has none (an \<open>AttributeError\<close> before Python 3.11).
  The writers of pandas have \<open>__enter__\<close> and \<open>__exit__\<close> only.
\<close>

definition ExcelWriter_has_aenter :: bool where
  "ExcelWriter_has_aenter = False"

definition async_with :: "bool \<Rightarrow> string \<Rightarrow> exn option" where
  "async_with has_aenter cls =
     (if has_aenter then None
      else Some (Exn ''TypeError''
             (quoted cls @ '' object does not support the asynchronous context manager protocol'')
             None))"

text \<open>
  Leaving the writer context and the Google Drive phase that follows \<open>save_statistics\<close>
  are calls into pandas and the Drive client: each is a parameter that may raise. Every
  exception that reaches \<open>run\<close> ends it in the outer \<open>except\<close>. \<open>run_over\<close> is the body of
  \<open>run\<close> with the list of object names as an argument; \<open>run\<close> is \<open>run_over\<close> at
  \<open>Config.OBJECT_NAMES\<close>.
\<close>

definition run_over ::
  "'w env \<Rightarrow> config \<Rightarrow> string list \<Rightarrow> 'w state \<Rightarrow> 'w state option" where
  "run_over env cfg names s =
     (case ensure_folders env (world s) of
        (Some e, w) \<Rightarrow> Some (pipeline_failed e (s\<lparr>world := w\<rparr>))
      | (None, w) \<Rightarrow>
          (case login env (s\<lparr>world := w\<rparr>) of
             (Inl e, s1) \<Rightarrow> Some (pipeline_failed e s1)
           | (Inr u, s1) \<Rightarrow>
               (let excel_path = path_join (LOCAL_FOLDER cfg) ''all_data.xlsx''
                in case ExcelWriter_init env excel_path (world s1) of
                     (Inl e, w2) \<Rightarrow> Some (pipeline_failed e (s1\<lparr>world := w2\<rparr>))
                   | (Inr writer_class, w2) \<Rightarrow>
                       (case async_with ExcelWriter_has_aenter writer_class of
                          Some e \<Rightarrow> Some (pipeline_failed e (s1\<lparr>world := w2\<rparr>))
                        | None \<Rightarrow>
                            (case gather env cfg names (s1\<lparr>world := w2, sheets := []\<rparr>) of
                               None \<Rightarrow> None
                             | Some s3 \<Rightarrow>
                                 (case writer_exit env excel_path (map fst (sheets s3))
                                         (world s3) of
                                    (Some e, w4) \<Rightarrow>
                                      Some (pipeline_failed e (s3\<lparr>world := w4\<rparr>))
                                  | (None, w4) \<Rightarrow>
                                      (case save_statistics cfg (s3\<lparr>world := w4\<rparr>) of
                                         (Inl e, s5) \<Rightarrow> Some (pipeline_failed e s5)
                                       | (Inr u5, s5) \<Rightarrow>
                                           (case drive_upload env (world s5) of
                                              (Some e, w6) \<Rightarrow>
                                                Some (pipeline_failed e (s5\<lparr>world := w6\<rparr>))
                                            | (None, w6) \<Rightarrow>
                                                Some (print PipelineCompleted
                                                        (s5\<lparr>world := w6\<rparr>))))))))))"

definition run :: "'w env \<Rightarrow> config \<Rightarrow> 'w state \<Rightarrow> 'w state option" where
  "run env cfg s = run_over env cfg OBJECT_NAMES s"

section \<open>A scripted world\<close>

text \<open>
  A world whose remote service answers from a script: each call takes the next reply,
  whatever it asks, and is written down. With it a run of the program against a service
  that fails \<open>k\<close> times, or serves given pages, is a value that can be computed.
\<close>

datatype call = CLogin | CQueryAll string | CQuery string | CQueryMore "string option"

datatype reply =
    Session string string
  | FieldDefs "field_definition list option"
  | Page query_result

record script_world =
  script :: "(exn + reply) list"
  calls :: "call list"
  slept :: "real list"

definition next_reply :: "call \<Rightarrow> script_world \<Rightarrow> (exn + reply) \<times> script_world" where
  "next_reply c w =
     (case script w of
        [] \<Rightarrow> (Inl (Exn ''ConnectionError'' ''no reply'' None), w\<lparr>calls := calls w @ [c]\<rparr>)
      | r # rs \<Rightarrow> (r, w\<lparr>script := rs, calls := calls w @ [c]\<rparr>))"

definition unexpected :: exn where
  "unexpected = Exn ''ValueError'' ''unexpected reply'' None"

definition as_session :: "exn + reply \<Rightarrow> exn + string \<times> string" where
  "as_session r =
     (case r of Inl e \<Rightarrow> Inl e | Inr (Session sid inst) \<Rightarrow> Inr (sid, inst) | Inr _ \<Rightarrow> Inl unexpected)"

definition as_fields :: "exn + reply \<Rightarrow> exn + field_definition list option" where
  "as_fields r =
     (case r of Inl e \<Rightarrow> Inl e | Inr (FieldDefs fs) \<Rightarrow> Inr fs | Inr _ \<Rightarrow> Inl unexpected)"

definition as_page :: "exn + reply \<Rightarrow> exn + query_result" where
  "as_page r =
     (case r of Inl e \<Rightarrow> Inl e | Inr (Page p) \<Rightarrow> Inr p | Inr _ \<Rightarrow> Inl unexpected)"

definition remote ::
  "(exn + reply \<Rightarrow> exn + 'a) \<Rightarrow> call \<Rightarrow> script_world \<Rightarrow> (exn + 'a) \<times> script_world" where
  "remote conv c w = (case next_reply c w of (r, w1) \<Rightarrow> (conv r, w1))"

definition scripted :: "script_world env" where
  "scripted =
     \<lparr>SalesforceLogin = remote as_session CLogin,
      sf_query_all = (\<lambda>conn q. remote as_fields (CQueryAll q)),
      sf_query = (\<lambda>conn q. remote as_page (CQuery q)),
      sf_query_more = (\<lambda>conn url. remote as_page (CQueryMore url)),
      random_uniform = (\<lambda>w. (1 / 2, w)),
      time_sleep = (\<lambda>t w. w\<lparr>slept := slept w @ [t]\<rparr>),
      datetime_now = (\<lambda>w. sum_list (slept w)),
      datetime_today = (\<lambda>w. ''2024-01-01''),
      ensure_folders = (\<lambda>w. (None, w)),
      ExcelWriter_init = (\<lambda>path w. (Inr ''OpenpyxlWriter'', w)),
      writer_exit = (\<lambda>path names w. (None, w)),
      drive_upload = (\<lambda>w. (None, w))\<rparr>"

definition start :: "(exn + reply) list \<Rightarrow> script_world state" where
  "start replies =
     \<lparr>world = \<lparr>script = replies, calls = [], slept = []\<rparr>, stdout = [], sf = None,
      statistics = [], sheets = [], files = Map.empty\<rparr>"

definition connected :: "(exn + reply) list \<Rightarrow> script_world state" where
  "connected replies =
     (start replies)\<lparr>sf := Some \<lparr>sf_instance = ''instance'', sf_session_id = ''session''\<rparr>\<rparr>"

text \<open>What a run leaves to be looked at.\<close>

definition outcome :: "('a \<times> 'w state) option \<Rightarrow> 'a option" where
  "outcome r = map_option fst r"

definition stdout_after :: "('a \<times> 'w state) option \<Rightarrow> event list" where
  "stdout_after r = (case r of None \<Rightarrow> [] | Some (x, s) \<Rightarrow> stdout s)"

definition calls_after :: "('a \<times> script_world state) option \<Rightarrow> call list" where
  "calls_after r = (case r of None \<Rightarrow> [] | Some (x, s) \<Rightarrow> calls (world s))"

text \<open>The replies of an attempt that is served the pages \<open>ps\<close> and then fails with \<open>e\<close>.\<close>

definition page_replies :: "query_result list \<Rightarrow> (exn + reply) list" where
  "page_replies ps = map (\<lambda>p. Inr (Page p)) ps"

definition failed_attempt :: "query_result list \<times> exn \<Rightarrow> (exn + reply) list" where
  "failed_attempt a = page_replies (fst a) @ [Inl (snd a)]"

definition unfinished :: "query_result \<Rightarrow> bool" where
  "unfinished p = (qr_done p \<noteq> Some True)"

text \<open>
  The calls of one attempt that is served the unfinished pages \<open>ps\<close>: the query, then one
  \<open>query_more\<close> for the \<open>nextRecordsUrl\<close> of each.
\<close>

definition attempt_calls :: "string \<Rightarrow> query_result list \<Rightarrow> call list" where
  "attempt_calls soql ps = CQuery soql # map (\<lambda>p. CQueryMore (qr_nextRecordsUrl p)) ps"

definition soql_of :: "string \<Rightarrow> string list \<Rightarrow> string" where
  "soql_of obj field_names = ''SELECT '' @ join '', '' field_names @ '' FROM '' @ obj"

text \<open>The query of \<open>get_field_labels\<close>, and the filter it applies.\<close>

definition field_soql :: "string \<Rightarrow> string" where
  "field_soql obj =
     ''SELECT QualifiedApiName, Label, ValueTypeId FROM FieldDefinition WHERE EntityDefinition.QualifiedApiName = ''
     @ [CHR 0x27] @ obj @ [CHR 0x27]"

definition retained :: "string \<Rightarrow> bool" where
  "retained q = (q \<in> set STANDARD_FIELDS \<or> sublist ''__c'' q)"

text \<open>The state in which the \<open>try\<close> of \<open>export_salesforce_object\<close> starts.\<close>

definition started :: "'w env \<Rightarrow> string \<Rightarrow> 'w state \<Rightarrow> 'w state" where
  "started env obj s =
     print (StartTime (datetime_now env (world s))) (print (ProcessingObject obj) s)"

definition sheet_name_of :: "string \<Rightarrow> string" where
  "sheet_name_of obj = str_replace ''_'' '' '' (str_replace ''__c'' [] obj)"

definition log_path :: "config \<Rightarrow> string" where
  "log_path cfg = path_join (LOCAL_FOLDER cfg) (LOG_FILE_NAME cfg)"

text \<open>What the process itself holds: everything but the world and the output.\<close>

definition same_local :: "'w state \<Rightarrow> 'w state \<Rightarrow> bool" where
  "same_local s s' =
     (sf s' = sf s \<and> statistics s' = statistics s \<and> sheets s' = sheets s \<and> files s' = files s)"

definition sheets_of :: "'w state option \<Rightarrow> (string \<times> dataframe) list" where
  "sheets_of r = (case r of None \<Rightarrow> [] | Some s \<Rightarrow> sheets s)"

definition files_of :: "'w state option \<Rightarrow> string \<rightharpoonup> dataframe" where
  "files_of r = (case r of None \<Rightarrow> Map.empty | Some s \<Rightarrow> files s)"

definition stats_of :: "'w state option \<Rightarrow> string list" where
  "stats_of r = (case r of None \<Rightarrow> [] | Some s \<Rightarrow> map object_name (statistics s))"

definition stdout_of :: "'w state option \<Rightarrow> event list" where
  "stdout_of r = (case r of None \<Rightarrow> [] | Some s \<Rightarrow> stdout s)"

definition calls_of :: "script_world state option \<Rightarrow> call list" where
  "calls_of r = (case r of None \<Rightarrow> [] | Some s \<Rightarrow> calls (world s))"

text \<open>The rows that the statistics file holds (none when the file does not exist).\<close>

definition persisted :: "config \<Rightarrow> 'w state \<Rightarrow> dataframe" where
  "persisted cfg s = (case files s (log_path cfg) of Some old \<Rightarrow> old | None \<Rightarrow> [])"

section \<open>Dictionaries and the row transform\<close>

lemma dict_get_nil: "dict_get [] k d = d"
  by (simp add: dict_get_def)

lemma update_fresh: "k \<notin> fst ` set d \<Longrightarrow> AList.update k v d = d @ [(k, v)]"
  by (induction d) auto

lemma foldl_update_distinct:
  "distinct (map fst (acc @ kvs)) \<Longrightarrow>
   foldl (\<lambda>d (k, v). AList.update k v d) acc kvs = acc @ kvs"
proof (induction kvs arbitrary: acc)
  case Nil
  then show ?case by simp
next
  case (Cons kv kvs)
  obtain k v where kv: "kv = (k, v)" by (cases kv)
  from Cons.prems have fresh: "k \<notin> fst ` set acc" by (auto simp: kv)
  from Cons.prems have "distinct (map fst ((acc @ [(k, v)]) @ kvs))" by (auto simp: kv)
  from Cons.IH [OF this] show ?case by (simp add: kv update_fresh [OF fresh])
qed

lemma dict_of_items_distinct: "distinct (map fst kvs) \<Longrightarrow> dict_of_items kvs = kvs"
  using foldl_update_distinct [of "[]" kvs] by (simp add: dict_of_items_def)

lemma record_rows_eq:
  assumes "distinct (map snd m)"
  shows "record_rows m records =
         map (\<lambda>rec. map (\<lambda>(api, label). (label, dict_get rec api (PStr []))) m) records"
proof -
  have inv: "dict_of_items (map (\<lambda>(k, v). (v, k)) m) = map (\<lambda>(k, v). (v, k)) m"
    using assms by (intro dict_of_items_distinct) (simp add: comp_def case_prod_unfold)
  have swap: "map (\<lambda>(l, a). (l, g a)) (map (\<lambda>(k, v). (v, k)) m)
       = map (\<lambda>(api, label). (label, g api)) m" for g :: "string \<Rightarrow> pyval"
    by (simp add: comp_def case_prod_unfold)
  have keys: "map fst (map (\<lambda>(api, label). (label, g api)) m) = map snd m"
    for g :: "string \<Rightarrow> pyval"
    by (simp add: comp_def case_prod_unfold)
  have row: "dict_of_items (map (\<lambda>(l, a). (l, g a)) (map (\<lambda>(k, v). (v, k)) m))
       = map (\<lambda>(api, label). (label, g api)) m" for g :: "string \<Rightarrow> pyval"
    unfolding swap using assms by (intro dict_of_items_distinct) (simp only: keys)
  show ?thesis
    unfolding record_rows_def Let_def inv by (simp only: row)
qed

lemma field_label_loop_step:
  "field_label_loop (f # fs) m =
     (if retained (QualifiedApiName f)
      then field_label_loop fs (AList.update (QualifiedApiName f) (Label f) m)
      else field_label_loop fs m)"
  by (simp add: Let_def retained_def)

lemma field_label_loop_keys:
  "fst ` set (field_label_loop fs m) =
     fst ` set m \<union> {q \<in> QualifiedApiName ` set fs. retained q}"
proof (induction fs arbitrary: m)
  case Nil
  then show ?case by simp
next
  case (Cons f fs)
  show ?case
    unfolding field_label_loop_step
    by (auto simp: Cons.IH dom_update simp del: field_label_loop.simps)
qed

lemma field_label_loop_distinct_keys:
  "distinct (map fst m) \<Longrightarrow> distinct (map fst (field_label_loop fs m))"
  by (induction fs arbitrary: m) (auto simp: Let_def distinct_update)

lemma field_label_loop_fresh:
  "distinct (map fst m @ map QualifiedApiName fs) \<Longrightarrow>
   field_label_loop fs m =
     m @ map (\<lambda>f. (QualifiedApiName f, Label f)) (filter (\<lambda>f. retained (QualifiedApiName f)) fs)"
proof (induction fs arbitrary: m)
  case Nil
  then show ?case by simp
next
  case (Cons f fs)
  from Cons.prems have fresh: "QualifiedApiName f \<notin> fst ` set m" by auto
  show ?case
  proof (cases "retained (QualifiedApiName f)")
    case True
    from Cons.prems
    have "distinct (map fst (m @ [(QualifiedApiName f, Label f)]) @ map QualifiedApiName fs)"
      by auto
    from Cons.IH [OF this] True show ?thesis
      by (simp add: Let_def update_fresh [OF fresh] retained_def)
  next
    case False
    from Cons.prems have "distinct (map fst m @ map QualifiedApiName fs)" by auto
    from Cons.IH [OF this] False show ?thesis
      by (simp add: Let_def retained_def)
  qed
qed

lemma get_field_labels_ok:
  assumes "sf s = Some conn"
    and "sf_query_all env conn (field_soql obj) (world s) = (Inr (Some fs), w)"
  shows "get_field_labels env obj s = (Inr (field_label_loop fs []), s\<lparr>world := w\<rparr>)"
  using assms by (simp add: get_field_labels_def field_soql_def Let_def)

lemma save_statistics_new:
  "files s (log_path cfg) = None \<Longrightarrow>
   save_statistics cfg s =
     (Inr (), print (StatisticsSaved (log_path cfg))
        (s\<lparr>files := (files s)(log_path cfg \<mapsto> map stat_row (statistics s))\<rparr>))"
  by (simp add: save_statistics_def log_path_def Let_def)

lemma save_statistics_appends:
  "files s (log_path cfg) = Some old \<Longrightarrow> old \<noteq> [] \<Longrightarrow>
   save_statistics cfg s =
     (Inr (), print (StatisticsSaved (log_path cfg))
        (s\<lparr>files := (files s)(log_path cfg \<mapsto> old @ map stat_row (statistics s))\<rparr>))"
  by (simp add: save_statistics_def log_path_def read_csv_def Let_def)

lemma save_statistics_unreadable:
  "files s (log_path cfg) = Some [] \<Longrightarrow>
   save_statistics cfg s =
     (Inl (Exn ''EmptyDataError'' ''No columns to parse from file'' None), s)"
  by (simp add: save_statistics_def log_path_def read_csv_def Let_def)

section \<open>What an export leaves untouched\<close>

lemma same_local_refl: "same_local s s"
  by (simp add: same_local_def)

lemma same_local_trans: "same_local s s1 \<Longrightarrow> same_local s1 s2 \<Longrightarrow> same_local s s2"
  by (simp add: same_local_def)

lemma same_local_world: "same_local s (s\<lparr>world := w\<rparr>)"
  by (simp add: same_local_def)

lemma same_local_print: "same_local s (print e s)"
  by (simp add: same_local_def print_def)

lemma get_field_labels_local: "get_field_labels env obj s = (r, s1) \<Longrightarrow> same_local s s1"
  by (auto simp: get_field_labels_def same_local_def Let_def split: option.splits prod.splits sum.splits)

lemma fetch_try_local: "fetch_try env q s = Some (r, s1) \<Longrightarrow> same_local s s1"
  by (auto simp: fetch_try_def same_local_def split: option.splits prod.splits sum.splits)

lemma fetch_attempts_local:
  "fetch_attempts env obj q n idx s = Some (r, s1) \<Longrightarrow> same_local s s1"
proof (induction idx arbitrary: s)
  case Nil
  then show ?case by (auto simp: same_local_def)
next
  case (Cons i idx)
  show ?case
  proof (cases "fetch_try env q s")
    case None
    with Cons.prems show ?thesis by simp
  next
    case (Some a)
    obtain x s' where a: "a = (x, s')" by (cases a)
    have l1: "same_local s s'" using Some a by (auto dest: fetch_try_local)
    show ?thesis
    proof (cases x)
      case (Inr recs)
      with Cons.prems Some a l1 show ?thesis by simp
    next
      case (Inl e)
      obtain j w1 where ru: "random_uniform env (world s') = (j, w1)"
        by (cases "random_uniform env (world s')")
      let ?s2 = "print (QueryAttemptFailed (i + 1) n (message e) (2 ^ i + j)) (s'\<lparr>world := w1\<rparr>)"
      let ?s3 = "?s2\<lparr>world := time_sleep env (2 ^ i + j) (world ?s2)\<rparr>"
      from Cons.prems Some a Inl ru
      have "fetch_attempts env obj q n idx ?s3 = Some (r, s1)" by (simp add: Let_def)
      from Cons.IH [OF this] have "same_local ?s3 s1" .
      moreover have "same_local s' ?s3" by (simp add: same_local_def print_def)
      ultimately show ?thesis using l1 by (blast intro: same_local_trans)
    qed
  qed
qed

lemma fetch_data_local: "fetch_data env obj fs s = Some (r, s1) \<Longrightarrow> same_local s s1"
  unfolding fetch_data_def Let_def
  by (drule fetch_attempts_local) (simp add: same_local_def print_def)

lemma save_records_empty: "save_records cfg obj m [] s = s"
  by (simp add: save_records_def)

lemma save_records_small:
  "records \<noteq> [] \<Longrightarrow> length records < 1000000 \<Longrightarrow>
   save_records cfg obj m records s =
     print (DataSaved obj) (s\<lparr>sheets := sheets s @ [(sheet_name_of obj, record_rows m records)]\<rparr>)"
  by (simp add: save_records_def sheet_name_of_def Let_def)

lemma save_records_large:
  "1000000 \<le> length records \<Longrightarrow>
   save_records cfg obj m records s =
     print (DataSaved obj)
       (s\<lparr>files := (files s)(path_join (LOCAL_FOLDER cfg) (obj @ ''.csv'') \<mapsto> record_rows m records)\<rparr>)"
  by (auto simp add: save_records_def Let_def)

lemma export_try_failed:
  assumes "export_try env cfg obj t s = Some (Inl e, s1)"
  shows "same_local s s1"
proof (cases "get_field_labels env obj s")
  case (Pair r sa)
  have la: "same_local s sa" using Pair by (rule get_field_labels_local)
  show ?thesis
  proof (cases r)
    case (Inl e')
    with assms Pair la show ?thesis by (simp add: export_try_def)
  next
    case (Inr m)
    show ?thesis
    proof (cases "fetch_data env obj (map fst m) sa")
      case None
      with assms Pair Inr show ?thesis by (simp add: export_try_def Let_def)
    next
      case (Some a)
      obtain x sb where a: "a = (x, sb)" by (cases a)
      have lb: "same_local sa sb" using Some a by (auto dest: fetch_data_local)
      from assms Pair Inr Some a have "s1 = sb"
        by (cases x) (simp_all add: export_try_def Let_def)
      with la lb show ?thesis by (blast intro: same_local_trans)
    qed
  qed
qed

lemma export_try_completed:
  assumes "get_field_labels env obj s = (Inr m, s1)"
    and "fetch_data env obj (map fst m) s1 = Some (Inr records, s2)"
  shows "\<exists>s3 st. export_try env cfg obj t s = Some (Inr (), s3) \<and>
           object_name st = obj \<and> start_time st = t \<and>
           statistics s3 = statistics s @ [st] \<and>
           sheets s3 = sheets (save_records cfg obj m records s2) \<and>
           files s3 = files (save_records cfg obj m records s2) \<and>
           sf s3 = sf s \<and>
           sheets s2 = sheets s \<and> files s2 = files s"
proof -
  have l: "same_local s s2"
    using get_field_labels_local [OF assms(1)] fetch_data_local [OF assms(2)]
    by (rule same_local_trans)
  have st: "statistics (save_records cfg obj m records s2) = statistics s2"
       "sf (save_records cfg obj m records s2) = sf s2"
    by (simp_all add: save_records_def Let_def print_def)
  show ?thesis
    using assms l st
    by (simp add: export_try_def Let_def print_def same_local_def)
qed

lemma export_failed:
  assumes "export_try env cfg obj (datetime_now env (world s)) (started env obj s) = Some (Inl e, s1)"
  shows "\<exists>s'. export_salesforce_object env cfg obj s = Some s' \<and> same_local s s' \<and>
           ErrorProcessing obj (message e) \<in> set (stdout s')"
proof -
  have "same_local (started env obj s) s1" using assms by (rule export_try_failed)
  then have "same_local s s1" by (simp add: same_local_def started_def print_def)
  then show ?thesis
    using assms by (simp add: export_salesforce_object_def started_def Let_def print_def same_local_def)
qed

lemma export_completed:
  assumes "get_field_labels env obj (started env obj s) = (Inr m, s1)"
    and "fetch_data env obj (map fst m) s1 = Some (Inr records, s2)"
  shows "\<exists>s' st. export_salesforce_object env cfg obj s = Some s' \<and>
           object_name st = obj \<and>
           statistics s' = statistics s @ [st] \<and>
           sheets s' = sheets (save_records cfg obj m records s2) \<and>
           files s' = files (save_records cfg obj m records s2) \<and>
           sf s' = sf s \<and> sheets s2 = sheets s \<and> files s2 = files s"
proof -
  from export_try_completed [OF assms, of cfg "datetime_now env (world s)"]
  obtain s3 st where
    "export_try env cfg obj (datetime_now env (world s)) (started env obj s) = Some (Inr (), s3)"
    "object_name st = obj" "statistics s3 = statistics (started env obj s) @ [st]"
    "sheets s3 = sheets (save_records cfg obj m records s2)"
    "files s3 = files (save_records cfg obj m records s2)"
    "sf s3 = sf (started env obj s)" "sheets s2 = sheets (started env obj s)"
    "files s2 = files (started env obj s)"
    by blast
  then show ?thesis
    by (simp add: export_salesforce_object_def Let_def started_def print_def)
qed

section \<open>Login and fetch against the scripted world\<close>

lemma scripted_sel:
  "SalesforceLogin scripted = remote as_session CLogin"
  "sf_query_all scripted conn q = remote as_fields (CQueryAll q)"
  "sf_query scripted conn q = remote as_page (CQuery q)"
  "sf_query_more scripted conn url = remote as_page (CQueryMore url)"
  "random_uniform scripted w = (1 / 2, w)"
  "time_sleep scripted t w = w\<lparr>slept := slept w @ [t]\<rparr>"
  "datetime_now scripted w = sum_list (slept w)"
  "datetime_today scripted w = ''2024-01-01''"
  "ensure_folders scripted w = (None, w)"
  "ExcelWriter_init scripted path w = (Inr ''OpenpyxlWriter'', w)"
  "writer_exit scripted path names w = (None, w)"
  "drive_upload scripted w = (None, w)"
  by (simp_all add: scripted_def)

lemma remote_reply:
  "script w = r # rs \<Longrightarrow> remote conv c w = (conv r, w\<lparr>script := rs, calls := calls w @ [c]\<rparr>)"
  by (simp add: remote_def next_reply_def)

lemma remote_silent:
  "script w = [] \<Longrightarrow>
   remote conv c w = (conv (Inl (Exn ''ConnectionError'' ''no reply'' None)), w\<lparr>calls := calls w @ [c]\<rparr>)"
  by (simp add: remote_def next_reply_def)

lemma login_attempts_success:
  "length es < length idx \<Longrightarrow>
   script (world s) = map Inl es @ Inr (Session sid inst) # rest \<Longrightarrow>
   \<exists>s'. login_attempts scripted n idx s = (Inr (), s') \<and>
        sf s' = Some \<lparr>sf_instance = inst, sf_session_id = sid\<rparr> \<and>
        script (world s') = rest \<and>
        calls (world s') = calls (world s) @ replicate (Suc (length es)) CLogin"
proof (induction es arbitrary: idx s)
  case Nil
  then obtain i idx' where idx: "idx = i # idx'" by (cases idx) auto
  from Nil.prems(2) show ?case
    by (simp add: idx scripted_sel remote_reply as_session_def print_def)
next
  case (Cons e es)
  then obtain i idx' where idx: "idx = i # idx'" by (cases idx) auto
  let ?s2 = "print (LoginAttemptFailed (i + 1) n (message e) (2 ^ i + 1 / 2))
     (s\<lparr>world := (world s)\<lparr>script := map Inl es @ Inr (Session sid inst) # rest,
                              calls := calls (world s) @ [CLogin]\<rparr>\<rparr>)"
  let ?s3 = "?s2\<lparr>world := time_sleep scripted (2 ^ i + 1 / 2) (world ?s2)\<rparr>"
  from Cons.prems(2) have step:
    "login_attempts scripted n idx s = login_attempts scripted n idx' ?s3"
    by (simp add: idx scripted_sel remote_reply as_session_def Let_def)
  have "length es < length idx'" using Cons.prems(1) idx by simp
  moreover have "script (world ?s3) = map Inl es @ Inr (Session sid inst) # rest"
    by (simp add: print_def scripted_sel)
  ultimately obtain s' where
    "login_attempts scripted n idx' ?s3 = (Inr (), s')"
    "sf s' = Some \<lparr>sf_instance = inst, sf_session_id = sid\<rparr>"
    "script (world s') = rest"
    "calls (world s') = calls (world ?s3) @ replicate (Suc (length es)) CLogin"
    using Cons.IH [of idx' ?s3] by blast
  then show ?case
    by (simp add: step print_def scripted_sel replicate_app_Cons_same)
qed

lemma login_attempts_exhausted:
  "length es = length idx \<Longrightarrow>
   script (world s) = map Inl es @ rest \<Longrightarrow>
   \<exists>s'. login_attempts scripted n idx s =
          (Inl (Exn ''Exception'' ''Max retries reached, Salesforce login failed.'' None), s') \<and>
        sf s' = sf s \<and>
        script (world s') = rest \<and>
        calls (world s') = calls (world s) @ replicate (length idx) CLogin \<and>
        stdout s' = stdout s @
          map (\<lambda>(i, e). LoginAttemptFailed (i + 1) n (message e) (2 ^ i + 1 / 2)) (zip idx es)"
proof (induction idx arbitrary: es s)
  case Nil
  then show ?case by simp
next
  case (Cons i idx)
  then obtain e es' where es: "es = e # es'" by (cases es) auto
  let ?s2 = "print (LoginAttemptFailed (i + 1) n (message e) (2 ^ i + 1 / 2))
     (s\<lparr>world := (world s)\<lparr>script := map Inl es' @ rest,
                              calls := calls (world s) @ [CLogin]\<rparr>\<rparr>)"
  let ?s3 = "?s2\<lparr>world := time_sleep scripted (2 ^ i + 1 / 2) (world ?s2)\<rparr>"
  from Cons.prems(2) have step:
    "login_attempts scripted n (i # idx) s = login_attempts scripted n idx ?s3"
    by (simp add: es scripted_sel remote_reply as_session_def Let_def)
  have "length es' = length idx" using Cons.prems(1) es by simp
  moreover have "script (world ?s3) = map Inl es' @ rest"
    by (simp add: print_def scripted_sel)
  ultimately obtain s' where
    "login_attempts scripted n idx ?s3 =
       (Inl (Exn ''Exception'' ''Max retries reached, Salesforce login failed.'' None), s')"
    "sf s' = sf ?s3"
    "script (world s') = rest"
    "calls (world s') = calls (world ?s3) @ replicate (length idx) CLogin"
    "stdout s' = stdout ?s3 @
          map (\<lambda>(i, e). LoginAttemptFailed (i + 1) n (message e) (2 ^ i + 1 / 2)) (zip idx es')"
    using Cons.IH [of es' ?s3] by blast
  then show ?case
    unfolding step by (simp add: es print_def scripted_sel replicate_app_Cons_same)
qed

lemma upt_5: "[0..<5] = [0, 1, 2, 3, 4]"
  by (simp add: upt_rec)

lemma loop_done:
  "qr_done cur = Some True \<Longrightarrow>
   query_more_loop env conn cur acc url w = Some (Inr acc, w)"
  by (subst query_more_loop.simps) simp

lemma loop_pages:
  "unfinished cur \<Longrightarrow> \<forall>p\<in>set ps. unfinished p \<Longrightarrow> qr_done lastp = Some True \<Longrightarrow>
   script w = page_replies (ps @ [lastp]) @ rest \<Longrightarrow>
   query_more_loop scripted conn cur acc (qr_nextRecordsUrl cur) w =
     Some (Inr (acc @ concat (map get_records (ps @ [lastp]))),
           w\<lparr>script := rest,
             calls := calls w @ map (\<lambda>p. CQueryMore (qr_nextRecordsUrl p)) (cur # ps)\<rparr>)"
proof (induction ps arbitrary: cur acc w)
  case Nil
  then show ?case
    by (subst query_more_loop.simps)
       (simp add: unfinished_def page_replies_def scripted_sel remote_reply as_page_def loop_done)
next
  case (Cons p ps)
  let ?w1 = "w\<lparr>script := page_replies (ps @ [lastp]) @ rest,
                calls := calls w @ [CQueryMore (qr_nextRecordsUrl cur)]\<rparr>"
  have step: "query_more_loop scripted conn cur acc (qr_nextRecordsUrl cur) w =
     query_more_loop scripted conn p (acc @ get_records p) (qr_nextRecordsUrl p) ?w1"
    using Cons.prems(1,4)
    by (subst query_more_loop.simps)
       (simp add: unfinished_def page_replies_def scripted_sel remote_reply as_page_def)
  have "query_more_loop scripted conn p (acc @ get_records p) (qr_nextRecordsUrl p) ?w1 =
     Some (Inr ((acc @ get_records p) @ concat (map get_records (ps @ [lastp]))),
           ?w1\<lparr>script := rest,
             calls := calls ?w1 @ map (\<lambda>p. CQueryMore (qr_nextRecordsUrl p)) (p # ps)\<rparr>)"
    using Cons.prems by (intro Cons.IH) simp_all
  then show ?case by (simp add: step)
qed

lemma loop_fails:
  "unfinished cur \<Longrightarrow> \<forall>p\<in>set ps. unfinished p \<Longrightarrow>
   script w = page_replies ps @ Inl e # rest \<Longrightarrow>
   query_more_loop scripted conn cur acc (qr_nextRecordsUrl cur) w =
     Some (Inl e,
           w\<lparr>script := rest,
             calls := calls w @ map (\<lambda>p. CQueryMore (qr_nextRecordsUrl p)) (cur # ps)\<rparr>)"
proof (induction ps arbitrary: cur acc w)
  case Nil
  then show ?case
    by (subst query_more_loop.simps)
       (simp add: unfinished_def page_replies_def scripted_sel remote_reply as_page_def)
next
  case (Cons p ps)
  let ?w1 = "w\<lparr>script := page_replies ps @ Inl e # rest,
                calls := calls w @ [CQueryMore (qr_nextRecordsUrl cur)]\<rparr>"
  have step: "query_more_loop scripted conn cur acc (qr_nextRecordsUrl cur) w =
     query_more_loop scripted conn p (acc @ get_records p) (qr_nextRecordsUrl p) ?w1"
    using Cons.prems(1,3)
    by (subst query_more_loop.simps)
       (simp add: unfinished_def page_replies_def scripted_sel remote_reply as_page_def)
  have "query_more_loop scripted conn p (acc @ get_records p) (qr_nextRecordsUrl p) ?w1 =
     Some (Inl e,
           ?w1\<lparr>script := rest,
             calls := calls ?w1 @ map (\<lambda>p. CQueryMore (qr_nextRecordsUrl p)) (p # ps)\<rparr>)"
    using Cons.prems by (intro Cons.IH) simp_all
  then show ?case by (simp add: step)
qed

lemma fetch_try_pages:
  assumes "sf s = Some conn" "\<forall>p\<in>set ps. unfinished p" "qr_done lastp = Some True"
    and "script (world s) = page_replies (ps @ [lastp]) @ rest"
  shows "fetch_try scripted soql s =
     Some (Inr (concat (map get_records (ps @ [lastp]))),
           s\<lparr>world := (world s)\<lparr>script := rest,
                calls := calls (world s) @ attempt_calls soql ps\<rparr>\<rparr>)"
proof (cases ps)
  case Nil
  with assms show ?thesis
    by (simp add: fetch_try_def scripted_sel page_replies_def remote_reply as_page_def
        loop_done attempt_calls_def)
next
  case (Cons p ps')
  let ?w1 = "(world s)\<lparr>script := page_replies (ps' @ [lastp]) @ rest,
                calls := calls (world s) @ [CQuery soql]\<rparr>"
  have q: "sf_query scripted conn soql (world s) = (Inr p, ?w1)"
    using assms(4) by (simp add: Cons scripted_sel page_replies_def remote_reply as_page_def)
  have "query_more_loop scripted conn p (get_records p) (qr_nextRecordsUrl p) ?w1 =
     Some (Inr (get_records p @ concat (map get_records (ps' @ [lastp]))),
           ?w1\<lparr>script := rest,
             calls := calls ?w1 @ map (\<lambda>p. CQueryMore (qr_nextRecordsUrl p)) (p # ps')\<rparr>)"
    using assms(2,3) by (intro loop_pages) (simp_all add: Cons)
  then show ?thesis
    using assms(1) q by (simp add: fetch_try_def Cons attempt_calls_def)
qed

lemma fetch_try_fails:
  assumes "sf s = Some conn" "\<forall>p\<in>set ps. unfinished p"
    and "script (world s) = failed_attempt (ps, e) @ rest"
  shows "fetch_try scripted soql s =
     Some (Inl e,
           s\<lparr>world := (world s)\<lparr>script := rest,
                calls := calls (world s) @ attempt_calls soql ps\<rparr>\<rparr>)"
proof (cases ps)
  case Nil
  with assms show ?thesis
    by (simp add: fetch_try_def scripted_sel page_replies_def failed_attempt_def remote_reply
        as_page_def attempt_calls_def)
next
  case (Cons p ps')
  let ?w1 = "(world s)\<lparr>script := page_replies ps' @ Inl e # rest,
                calls := calls (world s) @ [CQuery soql]\<rparr>"
  have q: "sf_query scripted conn soql (world s) = (Inr p, ?w1)"
    using assms(3)
    by (simp add: Cons scripted_sel page_replies_def failed_attempt_def remote_reply as_page_def)
  have "query_more_loop scripted conn p (get_records p) (qr_nextRecordsUrl p) ?w1 =
     Some (Inl e,
           ?w1\<lparr>script := rest,
             calls := calls ?w1 @ map (\<lambda>p. CQueryMore (qr_nextRecordsUrl p)) (p # ps')\<rparr>)"
    using assms(2) by (intro loop_fails) (simp_all add: Cons)
  then show ?thesis
    using assms(1) q by (simp add: fetch_try_def Cons attempt_calls_def)
qed

lemma fetch_attempts_step:
  assumes "sf s = Some conn" "\<forall>p\<in>set ps. unfinished p"
    and "script (world s) = failed_attempt (ps, e) @ rest"
  shows "\<exists>s1. fetch_attempts scripted obj soql n (i # idx) s =
                fetch_attempts scripted obj soql n idx s1 \<and>
              sf s1 = Some conn \<and> script (world s1) = rest \<and>
              calls (world s1) = calls (world s) @ attempt_calls soql ps"
proof -
  let ?s1 = "s\<lparr>world := (world s)\<lparr>script := rest,
                calls := calls (world s) @ attempt_calls soql ps\<rparr>\<rparr>"
  let ?s2 = "print (QueryAttemptFailed (i + 1) n (message e) (2 ^ i + 1 / 2)) ?s1"
  let ?s3 = "?s2\<lparr>world := time_sleep scripted (2 ^ i + 1 / 2) (world ?s2)\<rparr>"
  have "fetch_try scripted soql s = Some (Inl e, ?s1)"
    using assms by (rule fetch_try_fails)
  then have "fetch_attempts scripted obj soql n (i # idx) s =
                fetch_attempts scripted obj soql n idx ?s3"
    by (simp add: scripted_sel Let_def)
  moreover have "sf ?s3 = Some conn" "script (world ?s3) = rest"
    "calls (world ?s3) = calls (world s) @ attempt_calls soql ps"
    using assms(1) by (simp_all add: print_def scripted_sel)
  ultimately show ?thesis by blast
qed

lemma fetch_attempts_succeeds:
  assumes "sf s = Some conn"
    and "\<forall>a\<in>set fs. \<forall>p\<in>set (fst a). unfinished p"
    and "\<forall>p\<in>set ps. unfinished p" and "qr_done lastp = Some True"
    and "length fs < length idx"
    and "script (world s) =
           concat (map failed_attempt fs) @ page_replies (ps @ [lastp]) @ rest"
  shows "\<exists>s'. fetch_attempts scripted obj soql n idx s =
                Some (Inr (concat (map get_records (ps @ [lastp]))), s') \<and>
              script (world s') = rest \<and>
              calls (world s') = calls (world s) @
                concat (map (\<lambda>a. attempt_calls soql (fst a)) fs) @ attempt_calls soql ps"
  using assms(1,2,5,6)
proof (induction fs arbitrary: idx s)
  case Nil
  then obtain i idx' where idx: "idx = i # idx'" by (cases idx) auto
  have "fetch_try scripted soql s =
     Some (Inr (concat (map get_records (ps @ [lastp]))),
           s\<lparr>world := (world s)\<lparr>script := rest,
                calls := calls (world s) @ attempt_calls soql ps\<rparr>\<rparr>)"
    using Nil.prems(1) assms(3,4) Nil.prems(4) by (intro fetch_try_pages) simp_all
  then show ?case by (simp add: idx)
next
  case (Cons a fs)
  then obtain i idx' where idx: "idx = i # idx'" by (cases idx) auto
  obtain qs e where a: "a = (qs, e)" by (cases a)
  have "\<forall>p\<in>set qs. unfinished p" using Cons.prems(2) a by simp
  moreover have "script (world s) = failed_attempt (qs, e) @
      (concat (map failed_attempt fs) @ page_replies (ps @ [lastp]) @ rest)"
    using Cons.prems(4) a by simp
  ultimately obtain s1 where s1:
    "fetch_attempts scripted obj soql n (i # idx') s = fetch_attempts scripted obj soql n idx' s1"
    "sf s1 = Some conn"
    "script (world s1) = concat (map failed_attempt fs) @ page_replies (ps @ [lastp]) @ rest"
    "calls (world s1) = calls (world s) @ attempt_calls soql qs"
    using fetch_attempts_step [OF Cons.prems(1), of qs e _ obj soql n i idx'] by blast
  have "\<forall>a\<in>set fs. \<forall>p\<in>set (fst a). unfinished p" using Cons.prems(2) by simp
  moreover have "length fs < length idx'" using Cons.prems(3) idx by simp
  ultimately obtain s' where
    "fetch_attempts scripted obj soql n idx' s1 =
        Some (Inr (concat (map get_records (ps @ [lastp]))), s')"
    "script (world s') = rest"
    "calls (world s') = calls (world s1) @
        concat (map (\<lambda>a. attempt_calls soql (fst a)) fs) @ attempt_calls soql ps"
    using Cons.IH [OF s1(2) _ _ s1(3)] by blast
  then show ?case
    unfolding idx s1(1) by (simp add: s1(4) a)
qed

lemma fetch_attempts_exhausted:
  assumes "sf s = Some conn"
    and "\<forall>a\<in>set fs. \<forall>p\<in>set (fst a). unfinished p"
    and "length fs = length idx"
    and "script (world s) = concat (map failed_attempt fs) @ rest"
  shows "\<exists>s'. fetch_attempts scripted obj soql n idx s =
                Some (Inl (Exn ''Exception'' (''Max retries reached, query failed for '' @ obj)
                        None), s') \<and>
              script (world s') = rest \<and>
              calls (world s') = calls (world s) @
                concat (map (\<lambda>a. attempt_calls soql (fst a)) fs)"
  using assms
proof (induction idx arbitrary: fs s)
  case Nil
  then show ?case by simp
next
  case (Cons i idx)
  then obtain a fs' where fs: "fs = a # fs'" by (cases fs) auto
  obtain qs e where a: "a = (qs, e)" by (cases a)
  have "\<forall>p\<in>set qs. unfinished p" using Cons.prems(2) a fs by simp
  moreover have "script (world s) = failed_attempt (qs, e) @
      (concat (map failed_attempt fs') @ rest)"
    using Cons.prems(4) a fs by simp
  ultimately obtain s1 where s1:
    "fetch_attempts scripted obj soql n (i # idx) s = fetch_attempts scripted obj soql n idx s1"
    "sf s1 = Some conn"
    "script (world s1) = concat (map failed_attempt fs') @ rest"
    "calls (world s1) = calls (world s) @ attempt_calls soql qs"
    using fetch_attempts_step [OF Cons.prems(1), of qs e _ obj soql n i idx] by blast
  have "\<forall>a\<in>set fs'. \<forall>p\<in>set (fst a). unfinished p" using Cons.prems(2) fs by simp
  moreover have "length fs' = length idx" using Cons.prems(3) fs by simp
  ultimately obtain s' where
    "fetch_attempts scripted obj soql n idx s1 =
        Some (Inl (Exn ''Exception'' (''Max retries reached, query failed for '' @ obj)
                        None), s')"
    "script (world s') = rest"
    "calls (world s') = calls (world s1) @
        concat (map (\<lambda>a. attempt_calls soql (fst a)) fs')"
    using Cons.IH [OF s1(2) _ _ s1(3)] by blast
  then show ?case
    unfolding s1(1) by (simp add: s1(4) a fs)
qed

lemma fetch_data_unfold:
  "fetch_data env obj fns s =
     fetch_attempts env obj (soql_of obj fns) 5 [0, 1, 2, 3, 4]
       (print (ExecutingQuery (soql_of obj fns)) s)"
  by (simp add: fetch_data_def soql_of_def Let_def upt_5)

lemma login_unfold: "login env s = login_attempts env 5 [0, 1, 2, 3, 4] s"
  by (simp add: login_def Let_def upt_5)

lemma count_attempt_calls:
  "count_list (attempt_calls soql ps) (CQuery soql) = 1"
  by (induction ps) (simp_all add: attempt_calls_def)

lemma count_concat_attempts:
  "count_list (concat (map (\<lambda>a. attempt_calls soql (fst a)) fs)) (CQuery soql) = length fs"
  by (induction fs) (simp_all add: count_attempt_calls)

section \<open>Field resolution\<close>

text \<open>
  Claim C6. When the metadata query answers with the field definitions \<open>fs\<close>,
  \<open>get_field_labels\<close> returns a dictionary whose keys are exactly the API names of \<open>fs\<close>
  that are in the standard-field allowlist or contain the marker \<open>__c\<close>; every other
  field is dropped without an error. The keys are unique, and when the API names of
  \<open>fs\<close> are unique the dictionary lists each retained name with its label, in the order
  of \<open>fs\<close>. For the names \<open>Id\<close>, \<open>Foo__c\<close>, \<open>RandomField\<close> the result holds \<open>Id\<close> and
  \<open>Foo__c\<close> only.
\<close>

theorem field_resolution:
  assumes "sf s = Some conn"
    and "sf_query_all env conn (field_soql obj) (world s) = (Inr (Some fs), w)"
  shows "\<exists>m. get_field_labels env obj s = (Inr m, s\<lparr>world := w\<rparr>) \<and>
           fst ` set m =
             {q \<in> QualifiedApiName ` set fs. q \<in> set STANDARD_FIELDS \<or> sublist ''__c'' q} \<and>
           distinct (map fst m) \<and>
           (distinct (map QualifiedApiName fs) \<longrightarrow>
              m = map (\<lambda>f. (QualifiedApiName f, Label f))
                    (filter (\<lambda>f. retained (QualifiedApiName f)) fs))"
proof -
  let ?m = "field_label_loop fs []"
  have "get_field_labels env obj s = (Inr ?m, s\<lparr>world := w\<rparr>)"
    using assms by (rule get_field_labels_ok)
  moreover have "fst ` set ?m =
      {q \<in> QualifiedApiName ` set fs. q \<in> set STANDARD_FIELDS \<or> sublist ''__c'' q}"
    using field_label_loop_keys [of fs "[]"] by (simp add: retained_def)
  moreover have "distinct (map fst ?m)"
    by (rule field_label_loop_distinct_keys) simp
  moreover have "distinct (map QualifiedApiName fs) \<longrightarrow>
      ?m = map (\<lambda>f. (QualifiedApiName f, Label f)) (filter (\<lambda>f. retained (QualifiedApiName f)) fs)"
    using field_label_loop_fresh [of "[]" fs] by simp
  ultimately show ?thesis by blast
qed

theorem field_resolution_witness:
  "fst (get_field_labels scripted ''Account''
     (connected [Inr (FieldDefs (Some
        [\<lparr>QualifiedApiName = ''Id'', Label = ''Record ID''\<rparr>,
         \<lparr>QualifiedApiName = ''Foo__c'', Label = ''Foo''\<rparr>,
         \<lparr>QualifiedApiName = ''RandomField'', Label = ''Random''\<rparr>]))]))
   = Inr [(''Id'', ''Record ID''), (''Foo__c'', ''Foo'')]"
proof -
  let ?fs = "[\<lparr>QualifiedApiName = ''Id'', Label = ''Record ID''\<rparr>,
         \<lparr>QualifiedApiName = ''Foo__c'', Label = ''Foo''\<rparr>,
         \<lparr>QualifiedApiName = ''RandomField'', Label = ''Random''\<rparr>]"
  let ?s = "connected [Inr (FieldDefs (Some ?fs))]"
  let ?conn = "\<lparr>sf_instance = ''instance'', sf_session_id = ''session''\<rparr>"
  let ?w = "(world ?s)\<lparr>script := [], calls := calls (world ?s) @ [CQueryAll (field_soql ''Account'')]\<rparr>"
  have a: "sf ?s = Some ?conn" by (simp add: connected_def start_def)
  have b: "sf_query_all scripted ?conn (field_soql ''Account'') (world ?s) = (Inr (Some ?fs), ?w)"
    by (simp add: scripted_sel remote_reply connected_def start_def as_fields_def)
  have r: "retained ''Id''" "retained ''Foo__c''" "\<not> retained ''RandomField''"
    by (simp_all add: retained_def STANDARD_FIELDS_def sublist_Cons_right prefix_Cons)
  from field_resolution [OF a b] r show ?thesis by auto
qed

section \<open>The row transform\<close>

text \<open>
  Claim C7. When the labels of the field map are unique, the row transform gives one
  row for each fetched record, in the order of the records; a row lists each label of
  the map with the value that the record holds under the API name of that label, and
  the empty string when the record has no such key.
\<close>

theorem row_transform:
  assumes "distinct (map snd m)"
  shows "length (record_rows m records) = length records \<and>
         record_rows m records =
           map (\<lambda>rec. map (\<lambda>(api, label). (label, dict_get rec api (PStr []))) m) records \<and>
         (\<forall>i < length records. \<forall>(api, label) \<in> set m.
            map_of (record_rows m records ! i) label = Some (dict_get (records ! i) api (PStr [])))"
proof -
  have eq: "record_rows m records =
           map (\<lambda>rec. map (\<lambda>(api, label). (label, dict_get rec api (PStr []))) m) records"
    using assms by (rule record_rows_eq)
  have look: "map_of (map (\<lambda>(api, label). (label, g api)) m) label = Some (g api)"
    if "(api, label) \<in> set m" for g :: "string \<Rightarrow> pyval" and api label
  proof -
    have d: "distinct (map fst (map (\<lambda>(api, label). (label, g api)) m))"
      using assms by (simp add: comp_def case_prod_unfold)
    have "(label, g api) \<in> set (map (\<lambda>(api, label). (label, g api)) m)"
      using that by force
    with d show ?thesis by (rule map_of_is_SomeI)
  qed
  show ?thesis
    unfolding eq by (auto simp: look)
qed

theorem row_transform_witness:
  "record_rows [(''Id'', ''Record ID''), (''Foo__c'', ''Foo'')]
     [[(''Id'', PStr ''1''), (''Foo__c'', PNum 3)], [(''Id'', PStr ''2'')]]
   = [[(''Record ID'', PStr ''1''), (''Foo'', PNum 3)],
      [(''Record ID'', PStr ''2''), (''Foo'', PStr [])]]"
  using row_transform [of "[(''Id'', ''Record ID''), (''Foo__c'', ''Foo'')]"
      "[[(''Id'', PStr ''1''), (''Foo__c'', PNum 3)], [(''Id'', PStr ''2'')]]"]
  by (simp add: dict_get_def)

section \<open>Persisting the statistics\<close>

text \<open>
  When the statistics file can be read, or is not there and this run has a record,
  \<open>save_statistics\<close> writes the rows the file held followed by the rows of the run, each row
  as \<open>stat_row\<close> makes it, and the next run appends its own rows after them.
\<close>

lemma save_statistics_two_runs:
  assumes "files s1 (log_path cfg) \<noteq> Some []"
    and "statistics s1 \<noteq> [] \<or> persisted cfg s1 \<noteq> []"
    and "files s2 = files (snd (save_statistics cfg s1))"
  shows "fst (save_statistics cfg s1) = Inr () \<and>
         persisted cfg (snd (save_statistics cfg s1)) =
           persisted cfg s1 @ map stat_row (statistics s1) \<and>
         fst (save_statistics cfg s2) = Inr () \<and>
         persisted cfg (snd (save_statistics cfg s2)) =
           persisted cfg s1 @ map stat_row (statistics s1) @ map stat_row (statistics s2)"
proof (cases "files s1 (log_path cfg)")
  case None
  then have 1: "save_statistics cfg s1 =
     (Inr (), print (StatisticsSaved (log_path cfg))
        (s1\<lparr>files := (files s1)(log_path cfg \<mapsto> map stat_row (statistics s1))\<rparr>))"
    by (rule save_statistics_new)
  from assms(2) None have ne: "map stat_row (statistics s1) \<noteq> []"
    by (simp add: persisted_def)
  have "files s2 (log_path cfg) = Some (map stat_row (statistics s1))"
    using assms(3) 1 by (simp add: print_def)
  from save_statistics_appends [OF this ne] 1 None show ?thesis
    by (simp add: persisted_def print_def)
next
  case (Some old)
  with assms(1) have old: "old \<noteq> []" by simp
  from save_statistics_appends [OF Some old] have 1: "save_statistics cfg s1 =
     (Inr (), print (StatisticsSaved (log_path cfg))
        (s1\<lparr>files := (files s1)(log_path cfg \<mapsto> old @ map stat_row (statistics s1))\<rparr>))" .
  have f2: "files s2 (log_path cfg) = Some (old @ map stat_row (statistics s1))"
    using assms(3) 1 by (simp add: print_def)
  have "old @ map stat_row (statistics s1) \<noteq> []" using old by simp
  from save_statistics_appends [OF f2 this] 1 Some show ?thesis
    by (simp add: persisted_def print_def)
qed

text \<open>
  Claim C9 says that two flushes after one another leave the records of both runs in the
  statistics file. \<open>save_statistics\<close> misses one case. A run with no Statistics record
  and no statistics file writes the table with no row; the file is then there and cannot
  be read, so the flush of the next run raises in \<open>read_csv\<close> before it writes, and the
  record of that run is not in the file.
\<close>

theorem empty_flush_blocks_next_flush:
  "fst (save_statistics default_config (start [])) = Inr ()
   \<and> files (snd (save_statistics default_config (start []))) ''files/Pipeline_Logs.csv'' = Some []
   \<and> fst (save_statistics default_config
        ((snd (save_statistics default_config (start [])))
           \<lparr>statistics :=
              [\<lparr>object_name = ''Account'', start_time = 5, end_time = 6, duration = 1,
                last_refresh_date = ''2024-01-02''\<rparr>]\<rparr>))
     = Inl (Exn ''EmptyDataError'' ''No columns to parse from file'' None)
   \<and> persisted default_config
       (snd (save_statistics default_config
          ((snd (save_statistics default_config (start [])))
             \<lparr>statistics :=
                [\<lparr>object_name = ''Account'', start_time = 5, end_time = 6, duration = 1,
                  last_refresh_date = ''2024-01-02''\<rparr>]\<rparr>)))
     = []"
proof -
  have p: "log_path default_config = ''files/Pipeline_Logs.csv''"
    by (simp add: log_path_def default_config_def path_join_def)
  have n: "files (start []) (log_path default_config) = None"
    by (simp add: start_def)
  note 1 = save_statistics_new [OF n]
  let ?t = "(snd (save_statistics default_config (start [])))
           \<lparr>statistics :=
              [\<lparr>object_name = ''Account'', start_time = 5, end_time = 6, duration = 1,
                last_refresh_date = ''2024-01-02''\<rparr>]\<rparr>"
  have st: "statistics (start []) = []" by (simp add: start_def)
  have e: "files ?t (log_path default_config) = Some []"
    by (simp add: 1 print_def st)
  note 2 = save_statistics_unreadable [OF e]
  show ?thesis
    unfolding 2 using e by (simp add: 1 print_def st p persisted_def)
qed

section \<open>The retry loops\<close>

lemma fetch_data_succeeds:
  assumes "sf s = Some conn"
    and "\<forall>a\<in>set fs. \<forall>p\<in>set (fst a). unfinished p"
    and "\<forall>p\<in>set ps. unfinished p" and "qr_done lastp = Some True"
    and "length fs < 5"
    and "script (world s) =
           concat (map failed_attempt fs) @ page_replies (ps @ [lastp]) @ rest"
  shows "\<exists>s'. fetch_data scripted obj fns s =
                Some (Inr (concat (map get_records (ps @ [lastp]))), s') \<and>
              script (world s') = rest \<and>
              calls (world s') = calls (world s) @
                concat (map (\<lambda>a. attempt_calls (soql_of obj fns) (fst a)) fs) @
                attempt_calls (soql_of obj fns) ps"
proof -
  let ?s0 = "print (ExecutingQuery (soql_of obj fns)) s"
  have "sf ?s0 = Some conn" "script (world ?s0) =
           concat (map failed_attempt fs) @ page_replies (ps @ [lastp]) @ rest"
    "calls (world ?s0) = calls (world s)"
    using assms(1,6) by (simp_all add: print_def)
  with fetch_attempts_succeeds [of ?s0 conn fs ps lastp "[0, 1, 2, 3, 4]" rest obj
      "soql_of obj fns" 5] assms(2-5)
  show ?thesis by (simp add: fetch_data_unfold)
qed

lemma fetch_data_exhausted:
  assumes "sf s = Some conn"
    and "\<forall>a\<in>set fs. \<forall>p\<in>set (fst a). unfinished p"
    and "length fs = 5"
    and "script (world s) = concat (map failed_attempt fs) @ rest"
  shows "\<exists>s'. fetch_data scripted obj fns s =
                Some (Inl (Exn ''Exception'' (''Max retries reached, query failed for '' @ obj)
                        None), s') \<and>
              script (world s') = rest \<and>
              calls (world s') = calls (world s) @
                concat (map (\<lambda>a. attempt_calls (soql_of obj fns) (fst a)) fs)"
proof -
  let ?s0 = "print (ExecutingQuery (soql_of obj fns)) s"
  have "sf ?s0 = Some conn" "script (world ?s0) = concat (map failed_attempt fs) @ rest"
    "calls (world ?s0) = calls (world s)"
    using assms(1,4) by (simp_all add: print_def)
  with fetch_attempts_exhausted [of ?s0 conn fs "[0, 1, 2, 3, 4]" rest obj
      "soql_of obj fns" 5] assms(2,3)
  show ?thesis by (simp add: fetch_data_unfold)
qed

text \<open>
  Claim C5. Against a service that serves the pages \<open>ps @ [lastp]\<close> to the attempt
  that completes (after fewer than five attempts that failed, possibly none),
  \<open>fetch_data\<close> returns the records of these pages, page after page, each page in the
  order it came: nothing is reordered, dropped or repeated, and the pages seen by the
  failed attempts are not part of the result. Three pages of sizes 2, 2 and 1 give five
  records in page order.
\<close>

theorem paginated_fetch_concatenates:
  assumes "sf s = Some conn"
    and "\<forall>a\<in>set fs. \<forall>p\<in>set (fst a). unfinished p"
    and "\<forall>p\<in>set ps. unfinished p" and "qr_done lastp = Some True"
    and "length fs < 5"
    and "script (world s) =
           concat (map failed_attempt fs) @ page_replies (ps @ [lastp]) @ rest"
  shows "outcome (fetch_data scripted obj fns s) =
           Some (Inr (concat (map get_records (ps @ [lastp]))))"
  using fetch_data_succeeds [OF assms, of obj fns] by (auto simp: outcome_def)

theorem paginated_fetch_concatenates_witness:
  "outcome (fetch_data scripted ''Account'' [''Id'']
     (connected
        [Inr (Page \<lparr>qr_records = Some [[(''Id'', PStr ''1'')], [(''Id'', PStr ''2'')]],
                    qr_done = Some False, qr_nextRecordsUrl = Some ''/next-1''\<rparr>),
         Inr (Page \<lparr>qr_records = Some [[(''Id'', PStr ''3'')], [(''Id'', PStr ''4'')]],
                    qr_done = Some False, qr_nextRecordsUrl = Some ''/next-2''\<rparr>),
         Inr (Page \<lparr>qr_records = Some [[(''Id'', PStr ''5'')]],
                    qr_done = Some True, qr_nextRecordsUrl = None\<rparr>)]))
   = Some (Inr [[(''Id'', PStr ''1'')], [(''Id'', PStr ''2'')], [(''Id'', PStr ''3'')],
                [(''Id'', PStr ''4'')], [(''Id'', PStr ''5'')]])"
proof -
  let ?p1 = "\<lparr>qr_records = Some [[(''Id'', PStr ''1'')], [(''Id'', PStr ''2'')]],
                    qr_done = Some False, qr_nextRecordsUrl = Some ''/next-1''\<rparr>"
  let ?p2 = "\<lparr>qr_records = Some [[(''Id'', PStr ''3'')], [(''Id'', PStr ''4'')]],
                    qr_done = Some False, qr_nextRecordsUrl = Some ''/next-2''\<rparr>"
  let ?p3 = "\<lparr>qr_records = Some [[(''Id'', PStr ''5'')]],
                    qr_done = Some True, qr_nextRecordsUrl = None\<rparr>"
  let ?s = "connected [Inr (Page ?p1), Inr (Page ?p2), Inr (Page ?p3)]"
  let ?conn = "\<lparr>sf_instance = ''instance'', sf_session_id = ''session''\<rparr>"
  have 1: "sf ?s = Some ?conn" by (simp add: connected_def start_def)
  have 2: "\<forall>a\<in>set []. \<forall>p\<in>set (fst a). unfinished p" by simp
  have 3: "\<forall>p\<in>set [?p1, ?p2]. unfinished p" by (simp add: unfinished_def)
  have 4: "qr_done ?p3 = Some True" by simp
  have 5: "length ([] :: (query_result list \<times> exn) list) < 5" by simp
  have 6: "script (world ?s) =
      concat (map failed_attempt []) @ page_replies ([?p1, ?p2] @ [?p3]) @ []"
    by (simp add: connected_def start_def page_replies_def)
  from paginated_fetch_concatenates [OF 1 2 3 4 5 6, of "''Account''" "[''Id'']"]
  show ?thesis by (simp add: get_records_def)
qed

text \<open>
  Claim C2, as amended. The retry of \<open>fetch_data\<close> wraps the whole fetch of an object,
  not each page call: an attempt that fails, on the initial query or on any
  \<open>query_more\<close>, is followed by an attempt that issues the initial query again and then
  the \<open>query_more\<close> calls again, and all calls share the one budget of five attempts.
  The calls made are, for every attempt in turn, the query followed by one \<open>query_more\<close>
  for each unfinished page served to that attempt.
\<close>

theorem fetch_retries_whole_query:
  assumes "sf s = Some conn"
    and "\<forall>a\<in>set fs. \<forall>p\<in>set (fst a). unfinished p"
    and "\<forall>p\<in>set ps. unfinished p" and "qr_done lastp = Some True"
    and "length fs < 5"
    and "script (world s) =
           concat (map failed_attempt fs) @ page_replies (ps @ [lastp]) @ rest"
  shows "calls_after (fetch_data scripted obj fns s) =
           calls (world s) @
           concat (map (\<lambda>a. attempt_calls (soql_of obj fns) (fst a)) fs) @
           attempt_calls (soql_of obj fns) ps"
  using fetch_data_succeeds [OF assms, of obj fns] by (auto simp: calls_after_def)

theorem fetch_retries_whole_query_witness:
  "calls_after (fetch_data scripted ''Account'' [''Id'']
     (connected
        [Inr (Page \<lparr>qr_records = Some [[(''Id'', PStr ''1'')]],
                    qr_done = Some False, qr_nextRecordsUrl = Some ''/next-1''\<rparr>),
         Inl (Exn ''ConnectionError'' ''timeout'' None),
         Inr (Page \<lparr>qr_records = Some [[(''Id'', PStr ''1'')]],
                    qr_done = Some False, qr_nextRecordsUrl = Some ''/next-1''\<rparr>),
         Inr (Page \<lparr>qr_records = Some [[(''Id'', PStr ''2'')]],
                    qr_done = Some True, qr_nextRecordsUrl = None\<rparr>)]))
   = [CQuery ''SELECT Id FROM Account'', CQueryMore (Some ''/next-1''),
      CQuery ''SELECT Id FROM Account'', CQueryMore (Some ''/next-1'')]"
proof -
  let ?p1 = "\<lparr>qr_records = Some [[(''Id'', PStr ''1'')]],
                    qr_done = Some False, qr_nextRecordsUrl = Some ''/next-1''\<rparr>"
  let ?p2 = "\<lparr>qr_records = Some [[(''Id'', PStr ''2'')]],
                    qr_done = Some True, qr_nextRecordsUrl = None\<rparr>"
  let ?e = "Exn ''ConnectionError'' ''timeout'' None"
  let ?s = "connected [Inr (Page ?p1), Inl ?e, Inr (Page ?p1), Inr (Page ?p2)]"
  let ?conn = "\<lparr>sf_instance = ''instance'', sf_session_id = ''session''\<rparr>"
  have 1: "sf ?s = Some ?conn" by (simp add: connected_def start_def)
  have 2: "\<forall>a\<in>set [([?p1], ?e)]. \<forall>p\<in>set (fst a). unfinished p" by (simp add: unfinished_def)
  have 3: "\<forall>p\<in>set [?p1]. unfinished p" by (simp add: unfinished_def)
  have 4: "qr_done ?p2 = Some True" by simp
  have 5: "length [([?p1], ?e)] < 5" by simp
  have 6: "script (world ?s) =
      concat (map failed_attempt [([?p1], ?e)]) @ page_replies ([?p1] @ [?p2]) @ []"
    by (simp add: connected_def start_def page_replies_def failed_attempt_def)
  from fetch_retries_whole_query [OF 1 2 3 4 5 6, of "''Account''" "[''Id'']"]
  show ?thesis by (simp add: attempt_calls_def soql_of_def connected_def start_def)
qed

text \<open>
  The claim as it was stated fails. When the second page fails once, the initial
  query is issued twice; and three failures of the initial query followed by two
  failures of the second page exhaust the budget, though no call failed five times.
\<close>

theorem page_failure_restarts_fetch_counterexample:
  "calls_after (fetch_data scripted ''Account'' [''Id'']
     (connected
        [Inr (Page \<lparr>qr_records = Some [[(''Id'', PStr ''1'')]],
                    qr_done = Some False, qr_nextRecordsUrl = Some ''/next-1''\<rparr>),
         Inl (Exn ''ConnectionError'' ''timeout'' None),
         Inr (Page \<lparr>qr_records = Some [[(''Id'', PStr ''1'')]],
                    qr_done = Some False, qr_nextRecordsUrl = Some ''/next-1''\<rparr>),
         Inr (Page \<lparr>qr_records = Some [[(''Id'', PStr ''2'')]],
                    qr_done = Some True, qr_nextRecordsUrl = None\<rparr>)]))
     \<noteq> [CQuery ''SELECT Id FROM Account'', CQueryMore (Some ''/next-1''),
        CQueryMore (Some ''/next-1'')]
   \<and> count_list
       (calls_after (fetch_data scripted ''Account'' [''Id'']
         (connected
            [Inr (Page \<lparr>qr_records = Some [[(''Id'', PStr ''1'')]],
                        qr_done = Some False, qr_nextRecordsUrl = Some ''/next-1''\<rparr>),
             Inl (Exn ''ConnectionError'' ''timeout'' None),
             Inr (Page \<lparr>qr_records = Some [[(''Id'', PStr ''1'')]],
                        qr_done = Some False, qr_nextRecordsUrl = Some ''/next-1''\<rparr>),
             Inr (Page \<lparr>qr_records = Some [[(''Id'', PStr ''2'')]],
                        qr_done = Some True, qr_nextRecordsUrl = None\<rparr>)])))
       (CQuery ''SELECT Id FROM Account'') = 2
   \<and> outcome (fetch_data scripted ''Account'' [''Id'']
       (connected
          [Inl (Exn ''ConnectionError'' ''timeout'' None),
           Inl (Exn ''ConnectionError'' ''timeout'' None),
           Inl (Exn ''ConnectionError'' ''timeout'' None),
           Inr (Page \<lparr>qr_records = Some [[(''Id'', PStr ''1'')]],
                      qr_done = Some False, qr_nextRecordsUrl = Some ''/next-1''\<rparr>),
           Inl (Exn ''ConnectionError'' ''timeout'' None),
           Inr (Page \<lparr>qr_records = Some [[(''Id'', PStr ''1'')]],
                      qr_done = Some False, qr_nextRecordsUrl = Some ''/next-1''\<rparr>),
           Inl (Exn ''ConnectionError'' ''timeout'' None),
           Inr (Page \<lparr>qr_records = Some [[(''Id'', PStr ''1'')]],
                      qr_done = Some False, qr_nextRecordsUrl = Some ''/next-1''\<rparr>),
           Inr (Page \<lparr>qr_records = Some [[(''Id'', PStr ''2'')]],
                      qr_done = Some True, qr_nextRecordsUrl = None\<rparr>)]))
     = Some (Inl (Exn ''Exception'' ''Max retries reached, query failed for Account'' None))"
proof -
  let ?p1 = "\<lparr>qr_records = Some [[(''Id'', PStr ''1'')]],
                    qr_done = Some False, qr_nextRecordsUrl = Some ''/next-1''\<rparr>"
  let ?p2 = "\<lparr>qr_records = Some [[(''Id'', PStr ''2'')]],
                    qr_done = Some True, qr_nextRecordsUrl = None\<rparr>"
  let ?e = "Exn ''ConnectionError'' ''timeout'' None"
  let ?conn = "\<lparr>sf_instance = ''instance'', sf_session_id = ''session''\<rparr>"
  let ?s = "connected [Inr (Page ?p1), Inl ?e, Inr (Page ?p1), Inr (Page ?p2)]"
  have a1: "sf ?s = Some ?conn" by (simp add: connected_def start_def)
  have a2: "\<forall>a\<in>set [([?p1], ?e)]. \<forall>p\<in>set (fst a). unfinished p" by (simp add: unfinished_def)
  have a3: "\<forall>p\<in>set [?p1]. unfinished p" by (simp add: unfinished_def)
  have a4: "qr_done ?p2 = Some True" by simp
  have a5: "length [([?p1], ?e)] < 5" by simp
  have a6: "script (world ?s) =
      concat (map failed_attempt [([?p1], ?e)]) @ page_replies ([?p1] @ [?p2]) @ []"
    by (simp add: connected_def start_def page_replies_def failed_attempt_def)
  from fetch_data_succeeds [OF a1 a2 a3 a4 a5 a6, of "''Account''" "[''Id'']"]
  have A: "calls_after (fetch_data scripted ''Account'' [''Id''] ?s) =
      [CQuery ''SELECT Id FROM Account'', CQueryMore (Some ''/next-1''),
       CQuery ''SELECT Id FROM Account'', CQueryMore (Some ''/next-1'')]"
    by (auto simp: calls_after_def attempt_calls_def soql_of_def connected_def start_def)
  let ?fs = "[([], ?e), ([], ?e), ([], ?e), ([?p1], ?e), ([?p1], ?e)]"
  let ?t = "connected [Inl ?e, Inl ?e, Inl ?e, Inr (Page ?p1), Inl ?e, Inr (Page ?p1), Inl ?e,
                        Inr (Page ?p1), Inr (Page ?p2)]"
  have b1: "sf ?t = Some ?conn" by (simp add: connected_def start_def)
  have b2: "\<forall>a\<in>set ?fs. \<forall>p\<in>set (fst a). unfinished p" by (simp add: unfinished_def)
  have b3: "length ?fs = 5" by simp
  have b4: "script (world ?t) = concat (map failed_attempt ?fs) @ [Inr (Page ?p1), Inr (Page ?p2)]"
    by (simp add: connected_def start_def page_replies_def failed_attempt_def)
  from fetch_data_exhausted [OF b1 b2 b3 b4, of "''Account''" "[''Id'']"]
  have B: "outcome (fetch_data scripted ''Account'' [''Id''] ?t) =
      Some (Inl (Exn ''Exception'' ''Max retries reached, query failed for Account'' None))"
    by (auto simp: outcome_def)
  show ?thesis unfolding A B by simp
qed

lemma login_attempts_success_stdout:
  "length es < length idx \<Longrightarrow>
   script (world s) = map Inl es @ Inr (Session sid inst) # rest \<Longrightarrow>
   stdout (snd (login_attempts scripted n idx s)) =
     stdout s @
     map (\<lambda>(i, e). LoginAttemptFailed (i + 1) n (message e) (2 ^ i + 1 / 2)) (zip idx es) @
     [LoginSuccessful]"
proof (induction es arbitrary: idx s)
  case Nil
  then obtain i idx' where idx: "idx = i # idx'" by (cases idx) auto
  from Nil.prems(2) show ?case
    by (simp add: idx scripted_sel remote_reply as_session_def print_def)
next
  case (Cons e es)
  then obtain i idx' where idx: "idx = i # idx'" by (cases idx) auto
  let ?s2 = "print (LoginAttemptFailed (i + 1) n (message e) (2 ^ i + 1 / 2))
     (s\<lparr>world := (world s)\<lparr>script := map Inl es @ Inr (Session sid inst) # rest,
                              calls := calls (world s) @ [CLogin]\<rparr>\<rparr>)"
  let ?s3 = "?s2\<lparr>world := time_sleep scripted (2 ^ i + 1 / 2) (world ?s2)\<rparr>"
  from Cons.prems(2) have step:
    "login_attempts scripted n idx s = login_attempts scripted n idx' ?s3"
    by (simp add: idx scripted_sel remote_reply as_session_def Let_def)
  have "length es < length idx'" using Cons.prems(1) idx by simp
  moreover have "script (world ?s3) = map Inl es @ Inr (Session sid inst) # rest"
    by (simp add: print_def scripted_sel)
  ultimately have "stdout (snd (login_attempts scripted n idx' ?s3)) =
     stdout ?s3 @
     map (\<lambda>(i, e). LoginAttemptFailed (i + 1) n (message e) (2 ^ i + 1 / 2)) (zip idx' es) @
     [LoginSuccessful]"
    by (rule Cons.IH)
  then show ?case
    unfolding step by (simp add: idx print_def)
qed

lemma fetch_attempts_retry:
  assumes "sf s = Some conn" "\<forall>p\<in>set ps. unfinished p"
    and "script (world s) = failed_attempt (ps, e) @ rest"
  shows "fetch_attempts scripted obj soql n (i # idx) s =
         fetch_attempts scripted obj soql n idx
           (s\<lparr>stdout := stdout s @ [QueryAttemptFailed (i + 1) n (message e) (2 ^ i + 1 / 2)],
              world := (world s)\<lparr>script := rest,
                   calls := calls (world s) @ attempt_calls soql ps,
                   slept := slept (world s) @ [2 ^ i + 1 / 2]\<rparr>\<rparr>)"
proof -
  let ?s1 = "s\<lparr>world := (world s)\<lparr>script := rest,
                calls := calls (world s) @ attempt_calls soql ps\<rparr>\<rparr>"
  have "fetch_try scripted soql s = Some (Inl e, ?s1)"
    using assms by (rule fetch_try_fails)
  then show ?thesis
    by (simp add: scripted_sel Let_def print_def)
qed

lemma fetch_attempts_succeeds_stdout:
  assumes "sf s = Some conn"
    and "\<forall>a\<in>set fs. \<forall>p\<in>set (fst a). unfinished p"
    and "\<forall>p\<in>set ps. unfinished p" and "qr_done lastp = Some True"
    and "length fs < length idx"
    and "script (world s) =
           concat (map failed_attempt fs) @ page_replies (ps @ [lastp]) @ rest"
  shows "stdout_after (fetch_attempts scripted obj soql n idx s) =
           stdout s @
           map (\<lambda>(i, a). QueryAttemptFailed (i + 1) n (message (snd a)) (2 ^ i + 1 / 2))
             (zip idx fs)"
  using assms(1,2,5,6)
proof (induction fs arbitrary: idx s)
  case Nil
  then obtain i idx' where idx: "idx = i # idx'" by (cases idx) auto
  have "fetch_try scripted soql s =
     Some (Inr (concat (map get_records (ps @ [lastp]))),
           s\<lparr>world := (world s)\<lparr>script := rest,
                calls := calls (world s) @ attempt_calls soql ps\<rparr>\<rparr>)"
    using Nil.prems(1) assms(3,4) Nil.prems(4) by (intro fetch_try_pages) simp_all
  then show ?case by (simp add: idx stdout_after_def)
next
  case (Cons a fs)
  then obtain i idx' where idx: "idx = i # idx'" by (cases idx) auto
  obtain qs e where a: "a = (qs, e)" by (cases a)
  let ?s3 = "s\<lparr>stdout := stdout s @ [QueryAttemptFailed (i + 1) n (message e) (2 ^ i + 1 / 2)],
              world := (world s)\<lparr>script :=
                     concat (map failed_attempt fs) @ page_replies (ps @ [lastp]) @ rest,
                   calls := calls (world s) @ attempt_calls soql qs,
                   slept := slept (world s) @ [2 ^ i + 1 / 2]\<rparr>\<rparr>"
  have q1: "\<forall>p\<in>set qs. unfinished p" using Cons.prems(2) a by simp
  have q2: "script (world s) = failed_attempt (qs, e) @
      (concat (map failed_attempt fs) @ page_replies (ps @ [lastp]) @ rest)"
    using Cons.prems(4) a by simp
  have step:
    "fetch_attempts scripted obj soql n (i # idx') s = fetch_attempts scripted obj soql n idx' ?s3"
    by (rule fetch_attempts_retry [OF Cons.prems(1) q1 q2])
  have "sf ?s3 = Some conn" using Cons.prems(1) by simp
  moreover have "\<forall>a\<in>set fs. \<forall>p\<in>set (fst a). unfinished p" using Cons.prems(2) by simp
  moreover have "length fs < length idx'" using Cons.prems(3) idx by simp
  moreover have "script (world ?s3) =
      concat (map failed_attempt fs) @ page_replies (ps @ [lastp]) @ rest" by simp
  ultimately have "stdout_after (fetch_attempts scripted obj soql n idx' ?s3) =
           stdout ?s3 @
           map (\<lambda>(i, a). QueryAttemptFailed (i + 1) n (message (snd a)) (2 ^ i + 1 / 2))
             (zip idx' fs)"
    by (rule Cons.IH)
  then show ?case
    unfolding idx step by (simp add: a)
qed

lemma fetch_attempts_exhausted_stdout:
  assumes "sf s = Some conn"
    and "\<forall>a\<in>set fs. \<forall>p\<in>set (fst a). unfinished p"
    and "length fs = length idx"
    and "script (world s) = concat (map failed_attempt fs) @ rest"
  shows "stdout_after (fetch_attempts scripted obj soql n idx s) =
           stdout s @
           map (\<lambda>(i, a). QueryAttemptFailed (i + 1) n (message (snd a)) (2 ^ i + 1 / 2))
             (zip idx fs)"
  using assms
proof (induction idx arbitrary: fs s)
  case Nil
  then show ?case by (simp add: stdout_after_def)
next
  case (Cons i idx)
  then obtain a fs' where fs: "fs = a # fs'" by (cases fs) auto
  obtain qs e where a: "a = (qs, e)" by (cases a)
  let ?s3 = "s\<lparr>stdout := stdout s @ [QueryAttemptFailed (i + 1) n (message e) (2 ^ i + 1 / 2)],
              world := (world s)\<lparr>script := concat (map failed_attempt fs') @ rest,
                   calls := calls (world s) @ attempt_calls soql qs,
                   slept := slept (world s) @ [2 ^ i + 1 / 2]\<rparr>\<rparr>"
  have q1: "\<forall>p\<in>set qs. unfinished p" using Cons.prems(2) a fs by simp
  have q2: "script (world s) = failed_attempt (qs, e) @
      (concat (map failed_attempt fs') @ rest)"
    using Cons.prems(4) a fs by simp
  have step:
    "fetch_attempts scripted obj soql n (i # idx) s = fetch_attempts scripted obj soql n idx ?s3"
    by (rule fetch_attempts_retry [OF Cons.prems(1) q1 q2])
  have "sf ?s3 = Some conn" using Cons.prems(1) by simp
  moreover have "\<forall>a\<in>set fs'. \<forall>p\<in>set (fst a). unfinished p" using Cons.prems(2) fs by simp
  moreover have "length fs' = length idx" using Cons.prems(3) fs by simp
  moreover have "script (world ?s3) = concat (map failed_attempt fs') @ rest" by simp
  ultimately have "stdout_after (fetch_attempts scripted obj soql n idx ?s3) =
           stdout ?s3 @
           map (\<lambda>(i, a). QueryAttemptFailed (i + 1) n (message (snd a)) (2 ^ i + 1 / 2))
             (zip idx fs')"
    by (rule Cons.IH)
  then show ?case
    unfolding step by (simp add: a fs)
qed

lemma fetch_data_succeeds_stdout:
  assumes "sf s = Some conn"
    and "\<forall>a\<in>set fs. \<forall>p\<in>set (fst a). unfinished p"
    and "\<forall>p\<in>set ps. unfinished p" and "qr_done lastp = Some True"
    and "length fs < 5"
    and "script (world s) =
           concat (map failed_attempt fs) @ page_replies (ps @ [lastp]) @ rest"
  shows "stdout_after (fetch_data scripted obj fns s) =
           stdout s @ ExecutingQuery (soql_of obj fns) #
           map (\<lambda>(i, a). QueryAttemptFailed (i + 1) 5 (message (snd a)) (2 ^ i + 1 / 2))
             (zip [0, 1, 2, 3, 4] fs)"
proof -
  let ?s0 = "print (ExecutingQuery (soql_of obj fns)) s"
  have "sf ?s0 = Some conn" "script (world ?s0) =
           concat (map failed_attempt fs) @ page_replies (ps @ [lastp]) @ rest"
    "length fs < length [0, 1, 2, 3, 4::nat]"
    using assms(1,5,6) by (simp_all add: print_def)
  from fetch_attempts_succeeds_stdout [OF this(1) assms(2,3,4) this(3,2), of obj "soql_of obj fns" 5]
  show ?thesis by (simp add: fetch_data_unfold print_def)
qed

lemma fetch_data_exhausted_stdout:
  assumes "sf s = Some conn"
    and "\<forall>a\<in>set fs. \<forall>p\<in>set (fst a). unfinished p"
    and "length fs = 5"
    and "script (world s) = concat (map failed_attempt fs) @ rest"
  shows "stdout_after (fetch_data scripted obj fns s) =
           stdout s @ ExecutingQuery (soql_of obj fns) #
           map (\<lambda>(i, a). QueryAttemptFailed (i + 1) 5 (message (snd a)) (2 ^ i + 1 / 2))
             (zip [0, 1, 2, 3, 4] fs)"
proof -
  let ?s0 = "print (ExecutingQuery (soql_of obj fns)) s"
  have "sf ?s0 = Some conn" "script (world ?s0) = concat (map failed_attempt fs) @ rest"
    "length fs = length [0, 1, 2, 3, 4::nat]"
    using assms(1,3,4) by (simp_all add: print_def)
  from fetch_attempts_exhausted_stdout [OF this(1) assms(2) this(3,2), of obj "soql_of obj fns" 5]
  show ?thesis by (simp add: fetch_data_unfold print_def)
qed

lemma replicate_5: "replicate 5 x = [x, x, x, x, x]"
  by (simp add: eval_nat_numeral)

text \<open>
  Claim C1, as amended. The operation is \<open>SalesforceLogin\<close> for \<open>login\<close> and one whole
  attempt (the query and its \<open>query_more\<close> calls) for \<open>fetch_data\<close>. When the operation
  fails \<open>k < 5\<close> times and then succeeds, the result is the success and the operation
  was invoked \<open>k + 1\<close> times. When it fails five times, it was invoked five times and
  the call raises a plain \<open>Exception\<close> with a fixed message and no context: the
  underlying failures are printed, one line for each failed attempt, and are not
  carried by the exception.
\<close>

theorem retry_wrapper:
  "(length es < 5 \<and> script (world s) = map Inl es @ Inr (Session sid inst) # rest \<longrightarrow>
      (\<exists>s'. login scripted s = (Inr (), s') \<and>
            sf s' = Some \<lparr>sf_instance = inst, sf_session_id = sid\<rparr> \<and>
            script (world s') = rest \<and>
            calls (world s') = calls (world s) @ replicate (length es + 1) CLogin \<and>
            stdout s' = stdout s @
              map (\<lambda>(i, e). LoginAttemptFailed (i + 1) 5 (message e) (2 ^ i + 1 / 2))
                (zip [0, 1, 2, 3, 4] es) @ [LoginSuccessful]))
   \<and> (length es = 5 \<and> script (world s) = map Inl es @ rest \<longrightarrow>
      (\<exists>s'. login scripted s =
              (Inl (Exn ''Exception'' ''Max retries reached, Salesforce login failed.'' None), s') \<and>
            script (world s') = rest \<and>
            calls (world s') = calls (world s) @ replicate 5 CLogin \<and>
            stdout s' = stdout s @
              map (\<lambda>(i, e). LoginAttemptFailed (i + 1) 5 (message e) (2 ^ i + 1 / 2))
                (zip [0, 1, 2, 3, 4] es)))
   \<and> (sf t = Some conn \<and> (\<forall>a\<in>set fs. \<forall>p\<in>set (fst a). unfinished p) \<and>
      (\<forall>p\<in>set ps. unfinished p) \<and> qr_done lastp = Some True \<and> length fs < 5 \<and>
      script (world t) = concat (map failed_attempt fs) @ page_replies (ps @ [lastp]) @ rest
      \<longrightarrow>
      outcome (fetch_data scripted obj fns t) =
        Some (Inr (concat (map get_records (ps @ [lastp])))) \<and>
      count_list (drop (length (calls (world t))) (calls_after (fetch_data scripted obj fns t)))
        (CQuery (soql_of obj fns)) = length fs + 1 \<and>
      stdout_after (fetch_data scripted obj fns t) =
        stdout t @ ExecutingQuery (soql_of obj fns) #
        map (\<lambda>(i, a). QueryAttemptFailed (i + 1) 5 (message (snd a)) (2 ^ i + 1 / 2))
          (zip [0, 1, 2, 3, 4] fs))
   \<and> (sf t = Some conn \<and> (\<forall>a\<in>set fs. \<forall>p\<in>set (fst a). unfinished p) \<and> length fs = 5 \<and>
      script (world t) = concat (map failed_attempt fs) @ rest
      \<longrightarrow>
      outcome (fetch_data scripted obj fns t) =
        Some (Inl (Exn ''Exception'' (''Max retries reached, query failed for '' @ obj) None)) \<and>
      count_list (drop (length (calls (world t))) (calls_after (fetch_data scripted obj fns t)))
        (CQuery (soql_of obj fns)) = 5 \<and>
      stdout_after (fetch_data scripted obj fns t) =
        stdout t @ ExecutingQuery (soql_of obj fns) #
        map (\<lambda>(i, a). QueryAttemptFailed (i + 1) 5 (message (snd a)) (2 ^ i + 1 / 2))
          (zip [0, 1, 2, 3, 4] fs))"
proof (intro conjI impI)
  assume "length es < 5 \<and> script (world s) = map Inl es @ Inr (Session sid inst) # rest"
  then show "\<exists>s'. login scripted s = (Inr (), s') \<and>
            sf s' = Some \<lparr>sf_instance = inst, sf_session_id = sid\<rparr> \<and>
            script (world s') = rest \<and>
            calls (world s') = calls (world s) @ replicate (length es + 1) CLogin \<and>
            stdout s' = stdout s @
              map (\<lambda>(i, e). LoginAttemptFailed (i + 1) 5 (message e) (2 ^ i + 1 / 2))
                (zip [0, 1, 2, 3, 4] es) @ [LoginSuccessful]"
    using login_attempts_success [of es "[0, 1, 2, 3, 4]" s sid inst rest 5]
      login_attempts_success_stdout [of es "[0, 1, 2, 3, 4]" s sid inst rest 5]
    by (auto simp add: login_unfold simp del: login_attempts.simps)
next
  assume "length es = 5 \<and> script (world s) = map Inl es @ rest"
  then show "\<exists>s'. login scripted s =
              (Inl (Exn ''Exception'' ''Max retries reached, Salesforce login failed.'' None), s') \<and>
            script (world s') = rest \<and>
            calls (world s') = calls (world s) @ replicate 5 CLogin \<and>
            stdout s' = stdout s @
              map (\<lambda>(i, e). LoginAttemptFailed (i + 1) 5 (message e) (2 ^ i + 1 / 2))
                (zip [0, 1, 2, 3, 4] es)"
    using login_attempts_exhausted [of es "[0, 1, 2, 3, 4]" s rest 5]
    by (auto simp add: login_unfold replicate_5 simp del: login_attempts.simps)
next
  assume h: "sf t = Some conn \<and> (\<forall>a\<in>set fs. \<forall>p\<in>set (fst a). unfinished p) \<and>
      (\<forall>p\<in>set ps. unfinished p) \<and> qr_done lastp = Some True \<and> length fs < 5 \<and>
      script (world t) = concat (map failed_attempt fs) @ page_replies (ps @ [lastp]) @ rest"
  then obtain s' where s':
    "fetch_data scripted obj fns t = Some (Inr (concat (map get_records (ps @ [lastp]))), s')"
    "calls (world s') = calls (world t) @
        concat (map (\<lambda>a. attempt_calls (soql_of obj fns) (fst a)) fs) @
        attempt_calls (soql_of obj fns) ps"
    using fetch_data_succeeds [of t conn fs ps lastp rest obj fns] by blast
  show "outcome (fetch_data scripted obj fns t) =
        Some (Inr (concat (map get_records (ps @ [lastp]))))"
    by (simp add: s'(1) outcome_def)
  show "count_list (drop (length (calls (world t))) (calls_after (fetch_data scripted obj fns t)))
        (CQuery (soql_of obj fns)) = length fs + 1"
    by (simp add: s' calls_after_def count_attempt_calls count_concat_attempts)
  show "stdout_after (fetch_data scripted obj fns t) =
        stdout t @ ExecutingQuery (soql_of obj fns) #
        map (\<lambda>(i, a). QueryAttemptFailed (i + 1) 5 (message (snd a)) (2 ^ i + 1 / 2))
          (zip [0, 1, 2, 3, 4] fs)"
    using h fetch_data_succeeds_stdout [of t conn fs ps lastp rest obj fns] by blast
next
  assume h: "sf t = Some conn \<and> (\<forall>a\<in>set fs. \<forall>p\<in>set (fst a). unfinished p) \<and> length fs = 5 \<and>
      script (world t) = concat (map failed_attempt fs) @ rest"
  then obtain s' where s':
    "fetch_data scripted obj fns t =
       Some (Inl (Exn ''Exception'' (''Max retries reached, query failed for '' @ obj) None), s')"
    "calls (world s') = calls (world t) @
        concat (map (\<lambda>a. attempt_calls (soql_of obj fns) (fst a)) fs)"
    using fetch_data_exhausted [of t conn fs rest obj fns] by blast
  show "outcome (fetch_data scripted obj fns t) =
        Some (Inl (Exn ''Exception'' (''Max retries reached, query failed for '' @ obj) None))"
    by (simp add: s'(1) outcome_def)
  show "count_list (drop (length (calls (world t))) (calls_after (fetch_data scripted obj fns t)))
        (CQuery (soql_of obj fns)) = 5"
    using h by (simp add: s' calls_after_def count_concat_attempts)
  show "stdout_after (fetch_data scripted obj fns t) =
        stdout t @ ExecutingQuery (soql_of obj fns) #
        map (\<lambda>(i, a). QueryAttemptFailed (i + 1) 5 (message (snd a)) (2 ^ i + 1 / 2))
          (zip [0, 1, 2, 3, 4] fs)"
    using h fetch_data_exhausted_stdout [of t conn fs rest obj fns] by blast
qed

theorem retry_wrapper_witness:
  "fst (login scripted
      (start [Inl (Exn ''ConnectionError'' ''timeout'' None),
              Inl (Exn ''ConnectionError'' ''reset'' None),
              Inr (Session ''sid'' ''eu1'')])) = Inr ()
   \<and> calls (world (snd (login scripted
      (start [Inl (Exn ''ConnectionError'' ''timeout'' None),
              Inl (Exn ''ConnectionError'' ''reset'' None),
              Inr (Session ''sid'' ''eu1'')])))) = [CLogin, CLogin, CLogin]
   \<and> fst (login scripted
      (start [Inl (Exn ''ConnectionError'' ''timeout'' None),
              Inl (Exn ''ConnectionError'' ''timeout'' None),
              Inl (Exn ''ConnectionError'' ''timeout'' None),
              Inl (Exn ''ConnectionError'' ''timeout'' None),
              Inl (Exn ''ConnectionError'' ''reset'' None)]))
     = Inl (Exn ''Exception'' ''Max retries reached, Salesforce login failed.'' None)
   \<and> calls (world (snd (login scripted
      (start [Inl (Exn ''ConnectionError'' ''timeout'' None),
              Inl (Exn ''ConnectionError'' ''timeout'' None),
              Inl (Exn ''ConnectionError'' ''timeout'' None),
              Inl (Exn ''ConnectionError'' ''timeout'' None),
              Inl (Exn ''ConnectionError'' ''reset'' None)]))))
     = [CLogin, CLogin, CLogin, CLogin, CLogin]
   \<and> outcome (fetch_data scripted ''Account'' [''Id'']
       (connected
          [Inl (Exn ''ConnectionError'' ''timeout'' None),
           Inr (Page \<lparr>qr_records = Some [[(''Id'', PStr ''1'')]],
                      qr_done = Some True, qr_nextRecordsUrl = None\<rparr>)]))
     = Some (Inr [[(''Id'', PStr ''1'')]])
   \<and> stdout_after (fetch_data scripted ''Account'' [''Id'']
       (connected
          [Inl (Exn ''ConnectionError'' ''timeout'' None),
           Inr (Page \<lparr>qr_records = Some [[(''Id'', PStr ''1'')]],
                      qr_done = Some True, qr_nextRecordsUrl = None\<rparr>)]))
     = [ExecutingQuery ''SELECT Id FROM Account'', QueryAttemptFailed 1 5 ''timeout'' (3 / 2)]
   \<and> outcome (fetch_data scripted ''Account'' [''Id'']
       (connected
          [Inl (Exn ''ConnectionError'' ''timeout'' None),
           Inl (Exn ''ConnectionError'' ''timeout'' None),
           Inl (Exn ''ConnectionError'' ''timeout'' None),
           Inl (Exn ''ConnectionError'' ''timeout'' None),
           Inl (Exn ''ConnectionError'' ''reset'' None)]))
     = Some (Inl (Exn ''Exception'' ''Max retries reached, query failed for Account'' None))"
proof -
  let ?e = "Exn ''ConnectionError'' ''timeout'' None"
  let ?r = "Exn ''ConnectionError'' ''reset'' None"
  let ?conn = "\<lparr>sf_instance = ''instance'', sf_session_id = ''session''\<rparr>"
  let ?p = "\<lparr>qr_records = Some [[(''Id'', PStr ''1'')]],
                      qr_done = Some True, qr_nextRecordsUrl = None\<rparr>"
  let ?s = "start [Inl ?e, Inl ?r, Inr (Session ''sid'' ''eu1'')]"
  let ?s5 = "start [Inl ?e, Inl ?e, Inl ?e, Inl ?e, Inl ?r]"
  let ?t = "connected [Inl ?e, Inr (Page ?p)]"
  let ?t5 = "connected [Inl ?e, Inl ?e, Inl ?e, Inl ?e, Inl ?r]"
  let ?f5 = "[([], ?e), ([], ?e), ([], ?e), ([], ?e), ([], ?r)]"
  have l1: "length [?e, ?r] < 5 \<and>
      script (world ?s) = map Inl [?e, ?r] @ Inr (Session ''sid'' ''eu1'') # []"
    by (simp add: start_def)
  have l2: "length [?e, ?e, ?e, ?e, ?r] = 5 \<and>
      script (world ?s5) = map Inl [?e, ?e, ?e, ?e, ?r] @ []"
    by (simp add: start_def)
  have f1: "sf ?t = Some ?conn \<and> (\<forall>a\<in>set [([], ?e)]. \<forall>p\<in>set (fst a). unfinished p) \<and>
      (\<forall>p\<in>set []. unfinished p) \<and> qr_done ?p = Some True \<and> length [([], ?e)] < 5 \<and>
      script (world ?t) = concat (map failed_attempt [([], ?e)]) @ page_replies ([] @ [?p]) @ []"
    by (simp add: connected_def start_def failed_attempt_def page_replies_def)
  have f2: "sf ?t5 = Some ?conn \<and> (\<forall>a\<in>set ?f5. \<forall>p\<in>set (fst a). unfinished p) \<and>
      length ?f5 = 5 \<and> script (world ?t5) = concat (map failed_attempt ?f5) @ []"
    by (simp add: connected_def start_def failed_attempt_def page_replies_def)
  from retry_wrapper [of "[?e, ?r]" ?s "''sid''" "''eu1''" "[]" ?t ?conn "[([], ?e)]" "[]" ?p
      "''Account''" "[''Id'']"] l1 f1
  have A: "fst (login scripted ?s) = Inr ()"
    "calls (world (snd (login scripted ?s))) = [CLogin, CLogin, CLogin]"
    "outcome (fetch_data scripted ''Account'' [''Id''] ?t) = Some (Inr [[(''Id'', PStr ''1'')]])"
    "stdout_after (fetch_data scripted ''Account'' [''Id''] ?t) =
       [ExecutingQuery ''SELECT Id FROM Account'', QueryAttemptFailed 1 5 ''timeout'' (3 / 2)]"
    by (auto simp: start_def connected_def get_records_def soql_of_def
        simp del: login_attempts.simps)
  from retry_wrapper [of "[?e, ?e, ?e, ?e, ?r]" ?s5 _ _ "[]" ?t5 ?conn ?f5 _ _
      "''Account''" "[''Id'']"] l2 f2
  have B: "fst (login scripted ?s5) =
      Inl (Exn ''Exception'' ''Max retries reached, Salesforce login failed.'' None)"
    "calls (world (snd (login scripted ?s5))) = [CLogin, CLogin, CLogin, CLogin, CLogin]"
    "outcome (fetch_data scripted ''Account'' [''Id''] ?t5) =
      Some (Inl (Exn ''Exception'' ''Max retries reached, query failed for Account'' None))"
    by (auto simp: start_def replicate_5 simp del: login_attempts.simps)
  from A B show ?thesis by simp
qed

text \<open>
  The claim as it was stated fails: whatever the underlying failures were, the
  exception raised after the fifth attempt is the same value, and it refers to none.
\<close>

theorem retry_exhausted_carries_failure_counterexample:
  "fst (login scripted
      (start [Inl (Exn ''ConnectionError'' ''timeout'' None),
              Inl (Exn ''ConnectionError'' ''timeout'' None),
              Inl (Exn ''ConnectionError'' ''timeout'' None),
              Inl (Exn ''ConnectionError'' ''timeout'' None),
              Inl (Exn ''ConnectionError'' ''timeout'' None)]))
     = Inl (Exn ''Exception'' ''Max retries reached, Salesforce login failed.'' None)
   \<and> fst (login scripted
      (start [Inl (Exn ''OSError'' ''connection refused'' None),
              Inl (Exn ''OSError'' ''connection refused'' None),
              Inl (Exn ''OSError'' ''connection refused'' None),
              Inl (Exn ''OSError'' ''connection refused'' None),
              Inl (Exn ''OSError'' ''connection refused'' None)]))
     = Inl (Exn ''Exception'' ''Max retries reached, Salesforce login failed.'' None)
   \<and> outcome (fetch_data scripted ''Account'' [''Id'']
       (connected
          [Inl (Exn ''ConnectionError'' ''timeout'' None),
           Inl (Exn ''ConnectionError'' ''timeout'' None),
           Inl (Exn ''ConnectionError'' ''timeout'' None),
           Inl (Exn ''ConnectionError'' ''timeout'' None),
           Inl (Exn ''ConnectionError'' ''timeout'' None)]))
     = Some (Inl (Exn ''Exception'' ''Max retries reached, query failed for Account'' None))"
proof -
  let ?e = "Exn ''ConnectionError'' ''timeout'' None"
  let ?r = "Exn ''OSError'' ''connection refused'' None"
  let ?conn = "\<lparr>sf_instance = ''instance'', sf_session_id = ''session''\<rparr>"
  let ?f5 = "[([], ?e), ([], ?e), ([], ?e), ([], ?e), ([], ?e)]"
  let ?t5 = "connected [Inl ?e, Inl ?e, Inl ?e, Inl ?e, Inl ?e]"
  have "script (world (start (map Inl [?e, ?e, ?e, ?e, ?e]))) = map Inl [?e, ?e, ?e, ?e, ?e] @ []"
    by (simp add: start_def)
  from login_attempts_exhausted [OF _ this, of "[0, 1, 2, 3, 4]" 5]
  have A: "fst (login scripted (start [Inl ?e, Inl ?e, Inl ?e, Inl ?e, Inl ?e])) =
      Inl (Exn ''Exception'' ''Max retries reached, Salesforce login failed.'' None)"
    by (auto simp: login_unfold simp del: login_attempts.simps)
  have "script (world (start (map Inl [?r, ?r, ?r, ?r, ?r]))) = map Inl [?r, ?r, ?r, ?r, ?r] @ []"
    by (simp add: start_def)
  from login_attempts_exhausted [OF _ this, of "[0, 1, 2, 3, 4]" 5]
  have B: "fst (login scripted (start [Inl ?r, Inl ?r, Inl ?r, Inl ?r, Inl ?r])) =
      Inl (Exn ''Exception'' ''Max retries reached, Salesforce login failed.'' None)"
    by (auto simp: login_unfold simp del: login_attempts.simps)
  have c1: "sf ?t5 = Some ?conn" by (simp add: connected_def start_def)
  have c2: "\<forall>a\<in>set ?f5. \<forall>p\<in>set (fst a). unfinished p" by simp
  have c3: "length ?f5 = 5" by simp
  have c4: "script (world ?t5) = concat (map failed_attempt ?f5) @ []"
    by (simp add: connected_def start_def failed_attempt_def page_replies_def)
  from fetch_data_exhausted [OF c1 c2 c3 c4, of "''Account''" "[''Id'']"]
  have C: "outcome (fetch_data scripted ''Account'' [''Id''] ?t5) =
      Some (Inl (Exn ''Exception'' ''Max retries reached, query failed for Account'' None))"
    by (auto simp: outcome_def)
  from A B C show ?thesis by simp
qed

section \<open>What an export writes\<close>

lemma scripted_fields:
  assumes "sf s = Some conn" "script (world s) = Inr (FieldDefs (Some fs)) # rest"
  shows "get_field_labels scripted obj s =
     (Inr (field_label_loop fs []),
      s\<lparr>world := (world s)\<lparr>script := rest,
           calls := calls (world s) @ [CQueryAll (field_soql obj)]\<rparr>\<rparr>)"
  using assms
  by (intro get_field_labels_ok [where conn = conn])
     (simp_all add: scripted_sel remote_reply as_fields_def)

lemma scripted_fields_fail:
  assumes "sf s = Some conn" "script (world s) = Inl e # rest"
  shows "get_field_labels scripted obj s =
     (Inl e,
      s\<lparr>world := (world s)\<lparr>script := rest,
           calls := calls (world s) @ [CQueryAll (field_soql obj)]\<rparr>\<rparr>)"
  using assms
  by (simp add: get_field_labels_def field_soql_def Let_def scripted_sel remote_reply
      as_fields_def)

lemma export_try_fields_fail:
  "get_field_labels env obj s = (Inl e, s1) \<Longrightarrow> export_try env cfg obj t s = Some (Inl e, s1)"
  by (simp add: export_try_def)

lemma started_scripted:
  "sf (started env obj s) = sf s" "world (started env obj s) = world s"
  "sheets (started env obj s) = sheets s" "files (started env obj s) = files s"
  "statistics (started env obj s) = statistics s"
  by (simp_all add: started_def print_def)

lemma scripted_export:
  assumes "sf s = Some conn"
    and "script (world s) = Inr (FieldDefs (Some fs)) # page_replies (ps @ [lastp]) @ rest"
    and "\<forall>p\<in>set ps. unfinished p" and "qr_done lastp = Some True"
  shows "\<exists>s1 s2.
     get_field_labels scripted obj (started scripted obj s) = (Inr (field_label_loop fs []), s1) \<and>
     fetch_data scripted obj (map fst (field_label_loop fs [])) s1 =
       Some (Inr (concat (map get_records (ps @ [lastp]))), s2) \<and>
     script (world s2) = rest"
proof -
  let ?s0 = "started scripted obj s"
  let ?s1 = "?s0\<lparr>world := (world ?s0)\<lparr>script := page_replies (ps @ [lastp]) @ rest,
           calls := calls (world ?s0) @ [CQueryAll (field_soql obj)]\<rparr>\<rparr>"
  have g: "get_field_labels scripted obj ?s0 = (Inr (field_label_loop fs []), ?s1)"
    using assms(1,2) by (intro scripted_fields [where conn = conn]) (simp_all add: started_scripted)
  have "sf ?s1 = Some conn" using assms(1) by (simp add: started_scripted)
  moreover have "\<forall>a\<in>set []. \<forall>p\<in>set (fst a). unfinished p" by simp
  moreover have "length ([] :: (query_result list \<times> exn) list) < 5" by simp
  moreover have "script (world ?s1) =
      concat (map failed_attempt []) @ page_replies (ps @ [lastp]) @ rest" by simp
  ultimately obtain s2 where
    "fetch_data scripted obj (map fst (field_label_loop fs [])) ?s1 =
       Some (Inr (concat (map get_records (ps @ [lastp]))), s2)" "script (world s2) = rest"
    using fetch_data_succeeds [of ?s1 conn "[]" ps lastp rest obj] assms(3,4) by blast
  with g show ?thesis by blast
qed

lemma connected_sel:
  "sf (connected rs) = Some \<lparr>sf_instance = ''instance'', sf_session_id = ''session''\<rparr>"
  "script (world (connected rs)) = rs" "calls (world (connected rs)) = []"
  "sheets (connected rs) = []" "files (connected rs) = Map.empty"
  "statistics (connected rs) = []" "stdout (connected rs) = []"
  by (simp_all add: connected_def start_def)

lemma id_field_map:
  "field_label_loop [\<lparr>QualifiedApiName = ''Id'', Label = ''Record ID''\<rparr>] [] =
     [(''Id'', ''Record ID'')]"
  by (simp add: STANDARD_FIELDS_def)

text \<open>
  Claim C10. When the fetch of an object succeeds with no record, the export hands no
  sheet to the writer and writes no file, and still appends the Statistics record of
  the object. Its sheets and files are those left by an export that failed from the
  same sheets and files; only the statistics tell the two apart, where the object with
  no record stands as a completed one.
\<close>

theorem zero_rows_no_output:
  assumes "get_field_labels env obj (started env obj s) = (Inr m, s1)"
    and "fetch_data env obj (map fst m) s1 = Some (Inr [], s2)"
    and "export_try env cfg obj (datetime_now env (world t)) (started env obj t) = Some (Inl e, t1)"
    and "sheets t = sheets s" and "files t = files s"
  shows "sheets_of (export_salesforce_object env cfg obj s) = sheets s \<and>
         files_of (export_salesforce_object env cfg obj s) = files s \<and>
         stats_of (export_salesforce_object env cfg obj s) =
           map object_name (statistics s) @ [obj] \<and>
         sheets_of (export_salesforce_object env cfg obj t) = sheets s \<and>
         files_of (export_salesforce_object env cfg obj t) = files s \<and>
         stats_of (export_salesforce_object env cfg obj t) = map object_name (statistics t)"
proof -
  from export_completed [OF assms(1,2), of cfg]
  obtain s' st where "export_salesforce_object env cfg obj s = Some s'"
    "object_name st = obj" "statistics s' = statistics s @ [st]"
    "sheets s' = sheets s2" "files s' = files s2" "sheets s2 = sheets s" "files s2 = files s"
    by (auto simp: save_records_empty)
  moreover from export_failed [OF assms(3)]
  obtain t' where "export_salesforce_object env cfg obj t = Some t'" "same_local t t'"
    by blast
  ultimately show ?thesis
    using assms(4,5) by (simp add: sheets_of_def files_of_def stats_of_def same_local_def)
qed

theorem zero_rows_no_output_witness:
  "sheets_of (export_salesforce_object scripted default_config ''Account''
      (connected [Inr (FieldDefs (Some [\<lparr>QualifiedApiName = ''Id'', Label = ''Record ID''\<rparr>])),
                  Inr (Page \<lparr>qr_records = Some [], qr_done = Some True,
                             qr_nextRecordsUrl = None\<rparr>)])) = []
   \<and> files_of (export_salesforce_object scripted default_config ''Account''
      (connected [Inr (FieldDefs (Some [\<lparr>QualifiedApiName = ''Id'', Label = ''Record ID''\<rparr>])),
                  Inr (Page \<lparr>qr_records = Some [], qr_done = Some True,
                             qr_nextRecordsUrl = None\<rparr>)])) = Map.empty
   \<and> stats_of (export_salesforce_object scripted default_config ''Account''
      (connected [Inr (FieldDefs (Some [\<lparr>QualifiedApiName = ''Id'', Label = ''Record ID''\<rparr>])),
                  Inr (Page \<lparr>qr_records = Some [], qr_done = Some True,
                             qr_nextRecordsUrl = None\<rparr>)])) = [''Account'']
   \<and> sheets_of (export_salesforce_object scripted default_config ''Account''
      (connected [Inl (Exn ''ConnectionError'' ''timeout'' None)])) = []
   \<and> files_of (export_salesforce_object scripted default_config ''Account''
      (connected [Inl (Exn ''ConnectionError'' ''timeout'' None)])) = Map.empty
   \<and> stats_of (export_salesforce_object scripted default_config ''Account''
      (connected [Inl (Exn ''ConnectionError'' ''timeout'' None)])) = []"
proof -
  let ?fs = "[\<lparr>QualifiedApiName = ''Id'', Label = ''Record ID''\<rparr>]"
  let ?p = "\<lparr>qr_records = Some [], qr_done = Some True, qr_nextRecordsUrl = None\<rparr>"
  let ?e = "Exn ''ConnectionError'' ''timeout'' None"
  let ?s = "connected [Inr (FieldDefs (Some ?fs)), Inr (Page ?p)]"
  let ?t = "connected [Inl ?e]"
  let ?tz = "started scripted ''Account'' ?t"
  have "script (world ?s) = Inr (FieldDefs (Some ?fs)) # page_replies ([] @ [?p]) @ []"
    by (simp add: connected_sel page_replies_def)
  from scripted_export [OF connected_sel(1) this, of "''Account''", unfolded id_field_map]
  obtain s1 s2 where
    g: "get_field_labels scripted ''Account'' (started scripted ''Account'' ?s) =
          (Inr [(''Id'', ''Record ID'')], s1)"
    and f: "fetch_data scripted ''Account'' (map fst [(''Id'', ''Record ID'')]) s1 =
          Some (Inr [], s2)"
    by (auto simp: get_records_def)
  have "get_field_labels scripted ''Account'' ?tz =
     (Inl ?e, ?tz\<lparr>world := (world ?tz)\<lparr>script := [],
           calls := calls (world ?tz) @ [CQueryAll (field_soql ''Account'')]\<rparr>\<rparr>)"
    by (intro scripted_fields_fail) (simp_all add: started_scripted connected_sel)
  then have x: "export_try scripted default_config ''Account''
      (datetime_now scripted (world ?t)) ?tz =
     Some (Inl ?e, ?tz\<lparr>world := (world ?tz)\<lparr>script := [],
           calls := calls (world ?tz) @ [CQueryAll (field_soql ''Account'')]\<rparr>\<rparr>)"
    by (rule export_try_fields_fail)
  have st: "sheets ?t = sheets ?s" "files ?t = files ?s" by (simp_all add: connected_sel)
  from zero_rows_no_output [OF g f x st]
  show ?thesis by (simp add: connected_sel)
qed

text \<open>
  Claim C8, as amended. A completed export with at least one row is written exactly
  once: with fewer than 1,000,000 rows as one more sheet of the workbook, named by the
  object name with the marker \<open>__c\<close> removed and underscores replaced by spaces, and no
  file; with 1,000,000 rows or more as the file \<open><objectName>.csv\<close> of the local folder,
  and no sheet. A completed export with no row is not written; see claim C10.
\<close>

theorem export_materialized_once:
  assumes "get_field_labels env obj (started env obj s) = (Inr m, s1)"
    and "fetch_data env obj (map fst m) s1 = Some (Inr records, s2)"
    and "records \<noteq> []"
  shows "(length records < 1000000 \<longrightarrow>
            sheets_of (export_salesforce_object env cfg obj s) =
              sheets s @ [(str_replace ''_'' '' '' (str_replace ''__c'' [] obj),
                           record_rows m records)] \<and>
            files_of (export_salesforce_object env cfg obj s) = files s) \<and>
         (1000000 \<le> length records \<longrightarrow>
            sheets_of (export_salesforce_object env cfg obj s) = sheets s \<and>
            files_of (export_salesforce_object env cfg obj s) =
              (files s)(path_join (LOCAL_FOLDER cfg) (obj @ ''.csv'') \<mapsto> record_rows m records)) \<and>
         stats_of (export_salesforce_object env cfg obj s) =
           map object_name (statistics s) @ [obj]"
proof -
  from export_completed [OF assms(1,2), of cfg]
  obtain s' st where s': "export_salesforce_object env cfg obj s = Some s'"
    "object_name st = obj" "statistics s' = statistics s @ [st]"
    "sheets s' = sheets (save_records cfg obj m records s2)"
    "files s' = files (save_records cfg obj m records s2)"
    "sheets s2 = sheets s" "files s2 = files s"
    by auto
  show ?thesis
  proof (cases "length records < 1000000")
    case True
    with s' assms(3) show ?thesis
      by (simp add: save_records_small sheets_of_def files_of_def stats_of_def print_def
          sheet_name_of_def)
  next
    case False
    then have "1000000 \<le> length records" by simp
    with s' show ?thesis
      by (simp add: save_records_large sheets_of_def files_of_def stats_of_def print_def)
  qed
qed

theorem export_materialized_once_witness:
  "sheets_of (export_salesforce_object scripted default_config ''Work_Order__c''
      (connected [Inr (FieldDefs (Some [\<lparr>QualifiedApiName = ''Id'', Label = ''Record ID''\<rparr>])),
                  Inr (Page \<lparr>qr_records = Some [[(''Id'', PStr ''1'')]], qr_done = Some True,
                             qr_nextRecordsUrl = None\<rparr>)]))
     = [(''Work Order'', [[(''Record ID'', PStr ''1'')]])]
   \<and> files_of (export_salesforce_object scripted default_config ''Work_Order__c''
      (connected [Inr (FieldDefs (Some [\<lparr>QualifiedApiName = ''Id'', Label = ''Record ID''\<rparr>])),
                  Inr (Page \<lparr>qr_records = Some [[(''Id'', PStr ''1'')]], qr_done = Some True,
                             qr_nextRecordsUrl = None\<rparr>)])) = Map.empty
   \<and> sheets_of (export_salesforce_object scripted default_config ''Big__c''
      (connected [Inr (FieldDefs (Some [\<lparr>QualifiedApiName = ''Id'', Label = ''Record ID''\<rparr>])),
                  Inr (Page \<lparr>qr_records = Some (replicate 1000000 [(''Id'', PStr ''1'')]),
                             qr_done = Some True, qr_nextRecordsUrl = None\<rparr>)])) = []
   \<and> files_of (export_salesforce_object scripted default_config ''Big__c''
      (connected [Inr (FieldDefs (Some [\<lparr>QualifiedApiName = ''Id'', Label = ''Record ID''\<rparr>])),
                  Inr (Page \<lparr>qr_records = Some (replicate 1000000 [(''Id'', PStr ''1'')]),
                             qr_done = Some True, qr_nextRecordsUrl = None\<rparr>)]))
       ''files/Big__c.csv''
     = Some (replicate 1000000 [(''Record ID'', PStr ''1'')])"
proof -
  let ?fs = "[\<lparr>QualifiedApiName = ''Id'', Label = ''Record ID''\<rparr>]"
  let ?p = "\<lparr>qr_records = Some [[(''Id'', PStr ''1'')]], qr_done = Some True,
             qr_nextRecordsUrl = None\<rparr>"
  let ?big = "replicate 1000000 [(''Id'', PStr ''1'')]"
  let ?q = "\<lparr>qr_records = Some ?big, qr_done = Some True, qr_nextRecordsUrl = None\<rparr>"
  let ?s = "connected [Inr (FieldDefs (Some ?fs)), Inr (Page ?p)]"
  let ?t = "connected [Inr (FieldDefs (Some ?fs)), Inr (Page ?q)]"
  have "script (world ?s) = Inr (FieldDefs (Some ?fs)) # page_replies ([] @ [?p]) @ []"
    by (simp add: connected_sel page_replies_def)
  from scripted_export [OF connected_sel(1) this, of "''Work_Order__c''", unfolded id_field_map]
  obtain s1 s2 where
    g: "get_field_labels scripted ''Work_Order__c'' (started scripted ''Work_Order__c'' ?s) =
          (Inr [(''Id'', ''Record ID'')], s1)"
    and f: "fetch_data scripted ''Work_Order__c'' (map fst [(''Id'', ''Record ID'')]) s1 =
          Some (Inr [[(''Id'', PStr ''1'')]], s2)"
    by (auto simp: get_records_def)
  have n: "str_replace ''_'' '' '' (str_replace ''__c'' [] ''Work_Order__c'') = ''Work Order''"
    by simp
  have rows: "record_rows [(''Id'', ''Record ID'')] recs =
      map (\<lambda>rec. [(''Record ID'', dict_get rec ''Id'' (PStr []))]) recs" for recs
    by (subst record_rows_eq) simp_all
  from export_materialized_once [OF g f, of default_config]
  have A: "sheets_of (export_salesforce_object scripted default_config ''Work_Order__c'' ?s)
     = [(''Work Order'', [[(''Record ID'', PStr ''1'')]])]"
    "files_of (export_salesforce_object scripted default_config ''Work_Order__c'' ?s) = Map.empty"
    by (simp_all add: connected_sel n rows dict_get_def)
  have "script (world ?t) = Inr (FieldDefs (Some ?fs)) # page_replies ([] @ [?q]) @ []"
    by (simp add: connected_sel page_replies_def)
  from scripted_export [OF connected_sel(1) this, of "''Big__c''", unfolded id_field_map]
  obtain t1 t2 where
    g': "get_field_labels scripted ''Big__c'' (started scripted ''Big__c'' ?t) =
          (Inr [(''Id'', ''Record ID'')], t1)"
    and f': "fetch_data scripted ''Big__c'' (map fst [(''Id'', ''Record ID'')]) t1 =
          Some (Inr ?big, t2)"
    by (auto simp: get_records_def)
  have ne: "?big \<noteq> []" by simp
  from export_materialized_once [OF g' f' ne, of default_config]
  have B: "sheets_of (export_salesforce_object scripted default_config ''Big__c'' ?t) = []"
    "files_of (export_salesforce_object scripted default_config ''Big__c'' ?t) ''files/Big__c.csv''
       = Some (replicate 1000000 [(''Record ID'', PStr ''1'')])"
    by (simp_all add: connected_sel rows dict_get_def default_config_def path_join_def)
  from A B show ?thesis by simp
qed

text \<open>
  The claim as it was stated fails on a completed export with no row: the object has
  its Statistics record, and there is neither a sheet nor a file for it.
\<close>

theorem zero_row_export_not_materialized_counterexample:
  "stats_of (export_salesforce_object scripted default_config ''Contact''
      (connected [Inr (FieldDefs (Some [\<lparr>QualifiedApiName = ''Id'', Label = ''Record ID''\<rparr>])),
                  Inr (Page \<lparr>qr_records = Some [], qr_done = Some True,
                             qr_nextRecordsUrl = None\<rparr>)])) = [''Contact'']
   \<and> sheets_of (export_salesforce_object scripted default_config ''Contact''
      (connected [Inr (FieldDefs (Some [\<lparr>QualifiedApiName = ''Id'', Label = ''Record ID''\<rparr>])),
                  Inr (Page \<lparr>qr_records = Some [], qr_done = Some True,
                             qr_nextRecordsUrl = None\<rparr>)])) = []
   \<and> files_of (export_salesforce_object scripted default_config ''Contact''
      (connected [Inr (FieldDefs (Some [\<lparr>QualifiedApiName = ''Id'', Label = ''Record ID''\<rparr>])),
                  Inr (Page \<lparr>qr_records = Some [], qr_done = Some True,
                             qr_nextRecordsUrl = None\<rparr>)])) = Map.empty"
proof -
  let ?fs = "[\<lparr>QualifiedApiName = ''Id'', Label = ''Record ID''\<rparr>]"
  let ?p = "\<lparr>qr_records = Some [], qr_done = Some True, qr_nextRecordsUrl = None\<rparr>"
  let ?s = "connected [Inr (FieldDefs (Some ?fs)), Inr (Page ?p)]"
  have "script (world ?s) = Inr (FieldDefs (Some ?fs)) # page_replies ([] @ [?p]) @ []"
    by (simp add: connected_sel page_replies_def)
  from scripted_export [OF connected_sel(1) this, of "''Contact''", unfolded id_field_map]
  obtain s1 s2 where
    g: "get_field_labels scripted ''Contact'' (started scripted ''Contact'' ?s) =
          (Inr [(''Id'', ''Record ID'')], s1)"
    and f: "fetch_data scripted ''Contact'' (map fst [(''Id'', ''Record ID'')]) s1 =
          Some (Inr [], s2)"
    by (auto simp: get_records_def)
  from export_completed [OF g f, of default_config]
  show ?thesis
    by (auto simp: save_records_empty sheets_of_def files_of_def stats_of_def connected_sel)
qed

section \<open>One object's failure and the run\<close>

lemma login_attempts_local:
  "login_attempts env n idx s = (r, s') \<Longrightarrow>
   statistics s' = statistics s \<and> sheets s' = sheets s \<and> files s' = files s \<and>
   prefix (stdout s) (stdout s')"
proof (induction idx arbitrary: s)
  case Nil
  then show ?case by auto
next
  case (Cons i idx)
  obtain x w where l: "SalesforceLogin env (world s) = (x, w)"
    by (cases "SalesforceLogin env (world s)")
  show ?case
  proof (cases x)
    case (Inr p)
    with Cons.prems l show ?thesis by (cases p) (auto simp: print_def)
  next
    case (Inl e)
    obtain j w1 where ru: "random_uniform env w = (j, w1)" by (cases "random_uniform env w")
    let ?s1 = "print (LoginAttemptFailed (i + 1) n (message e) (2 ^ i + j)) (s\<lparr>world := w1\<rparr>)"
    let ?s2 = "?s1\<lparr>world := time_sleep env (2 ^ i + j) (world ?s1)\<rparr>"
    from Cons.prems l Inl ru have "login_attempts env n idx ?s2 = (r, s')"
      by (simp add: Let_def)
    from Cons.IH [OF this] show ?thesis
      by (auto simp: print_def dest: append_prefixD)
  qed
qed

lemma login_local:
  "login env s = (r, s') \<Longrightarrow>
   statistics s' = statistics s \<and> sheets s' = sheets s \<and> files s' = files s \<and>
   prefix (stdout s) (stdout s')"
  unfolding login_def Let_def by (rule login_attempts_local)

lemma get_field_labels_stdout: "get_field_labels env obj s = (r, s1) \<Longrightarrow> stdout s1 = stdout s"
  by (auto simp: get_field_labels_def Let_def split: option.splits prod.splits sum.splits)

lemma fetch_try_stdout: "fetch_try env q s = Some (r, s1) \<Longrightarrow> stdout s1 = stdout s"
  by (auto simp: fetch_try_def split: option.splits prod.splits sum.splits)

lemma fetch_attempts_stdout:
  "fetch_attempts env obj q n idx s = Some (r, s1) \<Longrightarrow> prefix (stdout s) (stdout s1)"
proof (induction idx arbitrary: s)
  case Nil
  then show ?case by auto
next
  case (Cons i idx)
  show ?case
  proof (cases "fetch_try env q s")
    case None
    with Cons.prems show ?thesis by simp
  next
    case (Some a)
    obtain x s' where a: "a = (x, s')" by (cases a)
    have l1: "stdout s' = stdout s" using Some a by (auto dest: fetch_try_stdout)
    show ?thesis
    proof (cases x)
      case (Inr recs)
      with Cons.prems Some a l1 show ?thesis by simp
    next
      case (Inl e)
      obtain j w1 where ru: "random_uniform env (world s') = (j, w1)"
        by (cases "random_uniform env (world s')")
      let ?s2 = "print (QueryAttemptFailed (i + 1) n (message e) (2 ^ i + j)) (s'\<lparr>world := w1\<rparr>)"
      let ?s3 = "?s2\<lparr>world := time_sleep env (2 ^ i + j) (world ?s2)\<rparr>"
      from Cons.prems Some a Inl ru
      have "fetch_attempts env obj q n idx ?s3 = Some (r, s1)" by (simp add: Let_def)
      from Cons.IH [OF this] show ?thesis
        by (auto simp: print_def l1 dest: append_prefixD)
    qed
  qed
qed

lemma fetch_data_stdout:
  "fetch_data env obj fs s = Some (r, s1) \<Longrightarrow> prefix (stdout s) (stdout s1)"
  unfolding fetch_data_def Let_def
  by (drule fetch_attempts_stdout) (auto simp: print_def dest: append_prefixD)

lemma save_records_stdout: "prefix (stdout s) (stdout (save_records cfg obj m records s))"
  by (simp add: save_records_def Let_def print_def)

lemma save_records_keeps:
  "statistics (save_records cfg obj m records s) = statistics s"
  "sf (save_records cfg obj m records s) = sf s"
  "world (save_records cfg obj m records s) = world s"
  by (simp_all add: save_records_def Let_def print_def)

lemma export_try_stdout:
  assumes "export_try env cfg obj t s = Some (r, s1)"
  shows "prefix (stdout s) (stdout s1)"
proof (cases "get_field_labels env obj s")
  case (Pair x sa)
  have la: "stdout sa = stdout s" using Pair by (rule get_field_labels_stdout)
  show ?thesis
  proof (cases x)
    case (Inl e')
    with assms Pair la show ?thesis by (auto simp: export_try_def)
  next
    case (Inr m)
    show ?thesis
    proof (cases "fetch_data env obj (map fst m) sa")
      case None
      with assms Pair Inr show ?thesis by (simp add: export_try_def Let_def)
    next
      case (Some a)
      obtain y sb where a: "a = (y, sb)" by (cases a)
      have lb: "prefix (stdout s) (stdout sb)"
        using Some a la by (auto dest: fetch_data_stdout)
      show ?thesis
      proof (cases y)
        case (Inl e)
        with assms Pair Inr Some a lb show ?thesis by (auto simp: export_try_def Let_def)
      next
        case (Inr records)
        have "prefix (stdout s) (stdout (save_records cfg obj m records sb))"
          using lb save_records_stdout [of sb cfg obj m records] by (rule prefix_order.trans)
        with assms Pair \<open>x = Inr m\<close> Some a Inr show ?thesis
          by (auto simp: export_try_def Let_def print_def dest: prefix_order.trans)
      qed
    qed
  qed
qed

lemma export_try_done:
  assumes "export_try env cfg obj t s = Some (Inr u, s1)"
  shows "\<exists>st. statistics s1 = statistics s @ [st] \<and> object_name st = obj"
proof (cases "get_field_labels env obj s")
  case (Pair x sa)
  have la: "same_local s sa" using Pair by (rule get_field_labels_local)
  show ?thesis
  proof (cases x)
    case (Inl e')
    with assms Pair show ?thesis by (simp add: export_try_def)
  next
    case (Inr m)
    show ?thesis
    proof (cases "fetch_data env obj (map fst m) sa")
      case None
      with assms Pair Inr show ?thesis by (simp add: export_try_def Let_def)
    next
      case (Some a)
      obtain y sb where a: "a = (y, sb)" by (cases a)
      have lb: "same_local sa sb" using Some a by (auto dest: fetch_data_local)
      show ?thesis
      proof (cases y)
        case (Inl e)
        with assms Pair Inr Some a show ?thesis by (simp add: export_try_def Let_def)
      next
        case (Inr records)
        with assms Pair \<open>x = Inr m\<close> Some a la lb show ?thesis
          by (auto simp: export_try_def Let_def print_def same_local_def save_records_keeps)
      qed
    qed
  qed
qed

lemma export_outcome:
  assumes "export_salesforce_object env cfg obj s = Some s'"
  shows "\<exists>out. stdout s' = stdout s @ ProcessingObject obj # out \<and>
          ((statistics s' = statistics s \<and> (\<exists>m. ErrorProcessing obj m \<in> set out)) \<or>
           (\<exists>st. statistics s' = statistics s @ [st] \<and> object_name st = obj))"
proof (cases "export_try env cfg obj (datetime_now env (world s)) (started env obj s)")
  case None
  with assms show ?thesis by (simp add: export_salesforce_object_def started_def Let_def)
next
  case (Some a)
  obtain r s1 where a: "a = (r, s1)" by (cases a)
  from Some a have "prefix (stdout (started env obj s)) (stdout s1)"
    by (auto dest: export_try_stdout)
  then obtain out where out:
    "stdout s1 = stdout s @ ProcessingObject obj # StartTime (datetime_now env (world s)) # out"
    by (auto simp: prefix_def started_def print_def)
  show ?thesis
  proof (cases r)
    case (Inl e)
    from Some a Inl have "same_local (started env obj s) s1" by (auto dest: export_try_failed)
    then have "statistics s1 = statistics s" by (simp add: same_local_def started_def print_def)
    moreover from assms Some a Inl
    have "s' = print (Traceback e) (print (ErrorProcessing obj (message e)) s1)"
      by (simp add: export_salesforce_object_def started_def Let_def)
    ultimately show ?thesis using out by (auto simp: print_def)
  next
    case (Inr u)
    from Some a Inr obtain st where
      "statistics s1 = statistics (started env obj s) @ [st]" "object_name st = obj"
      by (auto dest: export_try_done)
    moreover from assms Some a Inr have "s' = s1"
      by (simp add: export_salesforce_object_def started_def Let_def)
    ultimately show ?thesis using out by (auto simp: started_def print_def)
  qed
qed

lemma gather_append:
  "gather env cfg (xs @ ys) s =
     (case gather env cfg xs s of None \<Rightarrow> None | Some s1 \<Rightarrow> gather env cfg ys s1)"
  by (induction xs arbitrary: s) (auto split: option.splits)

lemma gather_outcome:
  "gather env cfg objs s = Some s' \<Longrightarrow>
   \<exists>out new. stdout s' = stdout s @ out \<and> statistics s' = statistics s @ new \<and>
     object_name ` set new \<subseteq> set objs \<and>
     (\<forall>y\<in>set objs. ProcessingObject y \<in> set out \<and>
        (y \<in> object_name ` set new \<or> (\<exists>m. ErrorProcessing y m \<in> set out)))"
proof (induction objs arbitrary: s)
  case Nil
  then show ?case by simp
next
  case (Cons obj objs)
  then obtain s1 where e: "export_salesforce_object env cfg obj s = Some s1"
    and g: "gather env cfg objs s1 = Some s'"
    by (auto split: option.splits)
  from export_outcome [OF e] obtain out1 new1 where 1:
    "stdout s1 = stdout s @ out1" "ProcessingObject obj \<in> set out1"
    "statistics s1 = statistics s @ new1" "object_name ` set new1 \<subseteq> {obj}"
    "obj \<in> object_name ` set new1 \<or> (\<exists>m. ErrorProcessing obj m \<in> set out1)"
    by (elim exE conjE disjE) (fastforce+)
  from Cons.IH [OF g] obtain out2 new2 where 2:
    "stdout s' = stdout s1 @ out2" "statistics s' = statistics s1 @ new2"
    "object_name ` set new2 \<subseteq> set objs"
    "\<forall>y\<in>set objs. ProcessingObject y \<in> set out2 \<and>
        (y \<in> object_name ` set new2 \<or> (\<exists>m. ErrorProcessing y m \<in> set out2))"
    by blast
  have "stdout s' = stdout s @ (out1 @ out2)" "statistics s' = statistics s @ (new1 @ new2)"
    using 1 2 by simp_all
  moreover have "object_name ` set (new1 @ new2) \<subseteq> set (obj # objs)"
    using 1(4) 2(3) by auto
  moreover have "\<forall>y\<in>set (obj # objs). ProcessingObject y \<in> set (out1 @ out2) \<and>
        (y \<in> object_name ` set (new1 @ new2) \<or> (\<exists>m. ErrorProcessing y m \<in> set (out1 @ out2)))"
    using 1(2,5) 2(4) by (auto simp: image_Un)
  ultimately show ?case by blast
qed

lemma async_with_ExcelWriter:
  "async_with ExcelWriter_has_aenter cls =
     Some (Exn ''TypeError''
       (quoted cls @ '' object does not support the asynchronous context manager protocol'') None)"
  by (simp add: async_with_def ExcelWriter_has_aenter_def)

lemma pipeline_failed_local:
  "statistics (pipeline_failed e s) = statistics s" "sheets (pipeline_failed e s) = sheets s"
  "files (pipeline_failed e s) = files s" "world (pipeline_failed e s) = world s"
  by (simp_all add: pipeline_failed_def print_def)

lemma run_over_stops_before_exports:
  "\<exists>e s'. run_over env cfg names s = Some (pipeline_failed e s') \<and>
          statistics s' = statistics s \<and> sheets s' = sheets s \<and> files s' = files s"
proof -
  obtain r0 w where ef: "ensure_folders env (world s) = (r0, w)"
    by (cases "ensure_folders env (world s)")
  show ?thesis
  proof (cases r0)
    case (Some e)
    with ef have "run_over env cfg names s = Some (pipeline_failed e (s\<lparr>world := w\<rparr>))"
      by (simp add: run_over_def)
    moreover have "statistics (s\<lparr>world := w\<rparr>) = statistics s"
      "sheets (s\<lparr>world := w\<rparr>) = sheets s" "files (s\<lparr>world := w\<rparr>) = files s"
      by simp_all
    ultimately show ?thesis by blast
  next
    case None
    obtain r1 s1 where lg: "login env (s\<lparr>world := w\<rparr>) = (r1, s1)"
      by (cases "login env (s\<lparr>world := w\<rparr>)")
    from login_local [OF lg] have l: "statistics s1 = statistics s" "sheets s1 = sheets s"
      "files s1 = files s" by simp_all
    show ?thesis
    proof (cases r1)
      case (Inl e)
      with ef None lg have "run_over env cfg names s = Some (pipeline_failed e s1)"
        by (simp add: run_over_def)
      with l show ?thesis by blast
    next
      case (Inr u)
      obtain r2 w2 where ew:
        "ExcelWriter_init env (path_join (LOCAL_FOLDER cfg) ''all_data.xlsx'') (world s1) = (r2, w2)"
        by (cases "ExcelWriter_init env (path_join (LOCAL_FOLDER cfg) ''all_data.xlsx'') (world s1)")
      have l2: "statistics (s1\<lparr>world := w2\<rparr>) = statistics s"
        "sheets (s1\<lparr>world := w2\<rparr>) = sheets s" "files (s1\<lparr>world := w2\<rparr>) = files s"
        using l by simp_all
      have "\<exists>e. run_over env cfg names s = Some (pipeline_failed e (s1\<lparr>world := w2\<rparr>))"
        using ef None lg Inr ew
        by (cases r2) (auto simp add: run_over_def Let_def async_with_ExcelWriter)
      with l2 show ?thesis by blast
    qed
  qed
qed

text \<open>
  Claim C3 says that the failure of one object stops at that object, that the other
  exports still run and that the statistics are then persisted. Inside
  \<open>export_salesforce_object\<close> and \<open>gather\<close> this is so (\<open>export_failed\<close>, \<open>gather_outcome\<close>), but
  \<open>run\<close> does not get there: the \<open>async with\<close> on the writer raises before its body, for
  every environment (\<open>run_over_stops_before_exports\<close>). With a login that succeeds at once,
  \<open>run\<close> makes no query for any object, writes no sheet, no file and no Statistics record,
  does not reach \<open>save_statistics\<close>, and prints that the pipeline failed.
\<close>

theorem run_stops_before_the_exports:
  "stats_of (run scripted default_config (start [Inr (Session ''sid'' ''eu1'')])) = []
   \<and> sheets_of (run scripted default_config (start [Inr (Session ''sid'' ''eu1'')])) = []
   \<and> files_of (run scripted default_config (start [Inr (Session ''sid'' ''eu1'')])) = Map.empty
   \<and> calls_of (run scripted default_config (start [Inr (Session ''sid'' ''eu1'')])) = [CLogin]
   \<and> stdout_of (run scripted default_config (start [Inr (Session ''sid'' ''eu1'')])) =
       [LoginSuccessful,
        PipelineFailed (quoted ''OpenpyxlWriter'' @
          '' object does not support the asynchronous context manager protocol''),
        Traceback (Exn ''TypeError'' (quoted ''OpenpyxlWriter'' @
          '' object does not support the asynchronous context manager protocol'') None)]"
proof -
  let ?s = "start [Inr (Session ''sid'' ''eu1'')]"
  let ?s1 = "?s\<lparr>stdout := [LoginSuccessful],
      world := \<lparr>script = [], calls = [CLogin], slept = []\<rparr>,
      sf := Some \<lparr>sf_instance = ''eu1'', sf_session_id = ''sid''\<rparr>\<rparr>"
  have lg: "login scripted ?s = (Inr (), ?s1)"
    by (simp add: login_unfold start_def scripted_sel remote_reply as_session_def print_def)
  have "run scripted default_config ?s =
      Some (pipeline_failed (Exn ''TypeError'' (quoted ''OpenpyxlWriter'' @
          '' object does not support the asynchronous context manager protocol'') None) ?s1)"
    unfolding run_def run_over_def
    by (simp add: scripted_sel lg async_with_ExcelWriter Let_def del: login_attempts.simps)
  then show ?thesis
    by (simp add: stats_of_def sheets_of_def files_of_def calls_of_def stdout_of_def
        pipeline_failed_def print_def start_def)
qed

end
